theory Spec2Isabelle
  imports Complex_Main "HOL-Library.Word" "HOL-Library.Multiset"
begin

section \<open>The HPX Node.js addon: data model\<close>

text \<open>
  The addon exchanges \<open>Int32Array\<close>s with the host; an element is an \<open>int32_t\<close>,
  a 32-bit word read as two's complement (\<open>sint\<close>). Masks are \<open>uint8_t\<close>.
  Sizes (\<open>size_t\<close>) are natural numbers; a \<open>uint32_t\<close> is a 32-bit word read as
  unsigned (\<open>unat\<close>).
\<close>

type_synonym int32 = "32 word"
type_synonym uint8 = "8 word"
type_synonym uint32 = "32 word"

text \<open>
  A count or an index arrives from the host as a JavaScript number: a finite value (a
  double, here a real), NaN or an infinity. \<open>Napi::Number::Uint32Value\<close> converts it
  as ECMAScript's ToUint32 does: NaN and the infinities give 0; a finite value is
  truncated towards zero and reduced modulo \<open>2^32\<close>.
\<close>

datatype js_number = Num real | NaN | PlusInfinity | MinusInfinity

fun Uint32Value :: "js_number \<Rightarrow> uint32" where
  "Uint32Value (Num x) = word_of_int (if 0 \<le> x then \<lfloor>x\<rfloor> else \<lceil>x\<rceil>)"
| "Uint32Value NaN = 0"
| "Uint32Value PlusInfinity = 0"
| "Uint32Value MinusInfinity = 0"

text \<open>
  Everything that a \<open>catch (const std::exception& e) { err = e.what(); }\<close> of the
  addon turns into a rejected promise is a \<open>RuntimeError\<close> with its message, or a
  \<open>std::future_error\<close> with its error code. \<open>OutOfBounds\<close> marks a read outside a
  vector, which the C++ leaves undefined; \<open>Terminate\<close> is \<open>std::terminate\<close>;
  \<open>Blocked\<close> is a wait that never ends.
\<close>

datatype future_errc =
  broken_promise | future_already_retrieved | promise_already_satisfied | no_state

datatype error = RuntimeError string | FutureError future_errc | OutOfBounds | Terminate | Blocked

text \<open>
  A function of the addon receives a pointer and a size; the model passes the array
  the pointer refers to. \<open>std::vector(src, src + size)\<close> copies the first \<open>size\<close> elements and
  is undefined when the array is shorter.
\<close>

definition vector_from :: "'a list \<Rightarrow> nat \<Rightarrow> error + 'a list" where
  "vector_from src sz = (if sz \<le> length src then Inr (take sz src) else Inl OutOfBounds)"

subsection \<open>hpx\_config: the user configuration\<close>

record HPXUserConfig =
  executionPolicy :: string
  threshold :: nat
  threadCount :: nat
  loggingEnabled :: bool
  logLevel :: string
  addonName :: string

definition default_config :: HPXUserConfig where
  "default_config = \<lparr> executionPolicy = ''par'', threshold = 10000, threadCount = 2,
     loggingEnabled = True, logLevel = ''INFO'', addonName = ''hpxaddon'' \<rparr>"

subsection \<open>hpx\_run\_policy.hpp\<close>

datatype policy = seq | par | par_unseq

definition run_with_policy :: "HPXUserConfig \<Rightarrow> (policy \<Rightarrow> 'r) \<Rightarrow> nat \<Rightarrow> 'r" where
  "run_with_policy cfg f sz =
     (let useParallel = (sz \<ge> threshold cfg) in
      if \<not> useParallel then f seq
      else if executionPolicy cfg = ''seq'' then f seq
      else if executionPolicy cfg = ''par_unseq'' then f par_unseq
      else f par)"

subsection \<open>The parallel algorithm library (external collaborator)\<close>

text \<open>
  The HPX algorithms are not part of the repository. They are modelled by their
  documented contracts; where the contract fixes the value returned, the execution
  policy changes how the work is scheduled, not that value. \<open>hpx::sort\<close> on
  \<open>int32_t\<close> orders by the signed value.
\<close>

definition hpx_lib_sort :: "policy \<Rightarrow> int32 list \<Rightarrow> int32 list" where
  "hpx_lib_sort p xs = sort_key sint xs"

text \<open>\<open>hpx::copy\<close> and \<open>hpx::copy_n\<close> write the source elements over the
  beginning of the destination; reading past the source is undefined.\<close>

definition hpx_lib_copy :: "policy \<Rightarrow> 'a list \<Rightarrow> 'a list \<Rightarrow> 'a list" where
  "hpx_lib_copy p src dst = src @ drop (length src) dst"

definition hpx_lib_copy_n :: "policy \<Rightarrow> 'a list \<Rightarrow> nat \<Rightarrow> 'a list \<Rightarrow> error + 'a list" where
  "hpx_lib_copy_n p src n dst =
     (if n \<le> length src then Inr (take n src @ drop n dst) else Inl OutOfBounds)"

text \<open>The four-iterator \<open>hpx::equal\<close>: walks both ranges, false as soon as the
  elements differ or one range ends before the other.\<close>

fun hpx_lib_equal :: "policy \<Rightarrow> 'a list \<Rightarrow> 'a list \<Rightarrow> bool" where
  "hpx_lib_equal p [] [] = True"
| "hpx_lib_equal p (x # xs) (y # ys) = (x = y \<and> hpx_lib_equal p xs ys)"
| "hpx_lib_equal p _ _ = False"

text \<open>
  \<open>hpx::count_if\<close> and \<open>hpx::copy_if\<close> apply the predicate exactly once to every
  element. The addon's predicate carries state (a cursor), so the order of the calls
  matters: \<open>apply_pred\<close> threads the state through the calls in the order given.
  Under the sequential policy the calls are made in index order; under a parallel
  policy in some order \<open>ord\<close> that the scheduler picks, a permutation of the indices
  (a list that is no permutation is no schedule, and the model then calls in index
  order).
\<close>

fun apply_pred :: "('s \<Rightarrow> 'a \<Rightarrow> error + bool \<times> 's) \<Rightarrow> 's \<Rightarrow> 'a list \<Rightarrow> error + bool list \<times> 's" where
  "apply_pred pred s [] = Inr ([], s)"
| "apply_pred pred s (x # xs) =
     (case pred s x of Inl e \<Rightarrow> Inl e
      | Inr (b, s') \<Rightarrow>
         (case apply_pred pred s' xs of Inl e \<Rightarrow> Inl e
          | Inr (bs, s'') \<Rightarrow> Inr (b # bs, s'')))"

definition call_order :: "policy \<Rightarrow> nat list \<Rightarrow> nat \<Rightarrow> nat list" where
  "call_order p ord n = (if p \<noteq> seq \<and> sort ord = [0..<n] then ord else [0..<n])"

definition hpx_lib_count_if ::
    "policy \<Rightarrow> nat list \<Rightarrow> ('s \<Rightarrow> 'a \<Rightarrow> error + bool \<times> 's) \<Rightarrow> 's \<Rightarrow> 'a list \<Rightarrow> error + nat" where
  "hpx_lib_count_if p ord pred s xs =
     (let calls = call_order p ord (length xs) in
      case apply_pred pred s (map ((!) xs) calls) of Inl e \<Rightarrow> Inl e
      | Inr (bs, s') \<Rightarrow> Inr (length (filter id bs)))"

definition hpx_lib_copy_if ::
    "policy \<Rightarrow> nat list \<Rightarrow> ('s \<Rightarrow> 'a \<Rightarrow> error + bool \<times> 's) \<Rightarrow> 's \<Rightarrow> 'a list \<Rightarrow> 'a list
       \<Rightarrow> error + 'a list \<times> nat" where
  "hpx_lib_copy_if p ord pred s xs dst =
     (let calls = call_order p ord (length xs) in
      case apply_pred pred s (map ((!) xs) calls) of Inl e \<Rightarrow> Inl e
      | Inr (bs, s') \<Rightarrow>
         (let selected = map fst (filter snd (zip calls bs));
              kept = map ((!) xs) (filter (\<lambda>i. i \<in> set selected) [0..<length xs])
          in Inr (kept @ drop (length kept) dst, length kept)))"

text \<open>
  \<open>hpx::partial_sort (policy, first, middle, last, comp)\<close> rearranges the range so
  that its first \<open>middle\<close> positions hold the smallest elements in ascending order.
  The order of the remaining elements and of equal elements is not specified and
  differs between implementations and policies. The library is therefore a parameter
  \<open>psort\<close> of the functions that call it, and what is known of it is its contract:
  for a comparator that compares by a key and a middle within the range, the result
  is a rearrangement of the input in which no element stands before a position below
  \<open>middle\<close> whose element has a larger key. An iterator \<open>begin + middle\<close> past the
  end of the range is undefined.
\<close>

type_synonym 'a partial_sort_impl = "policy \<Rightarrow> ('a \<Rightarrow> 'a \<Rightarrow> bool) \<Rightarrow> nat \<Rightarrow> 'a list \<Rightarrow> 'a list"

definition partial_sorted :: "('a \<Rightarrow> int) \<Rightarrow> nat \<Rightarrow> 'a list \<Rightarrow> bool" where
  "partial_sorted key middle ys \<longleftrightarrow>
     (\<forall>i<middle. \<forall>j<length ys. i < j \<longrightarrow> key (ys ! i) \<le> key (ys ! j))"

definition partial_sort_contract :: "'a partial_sort_impl \<Rightarrow> bool" where
  "partial_sort_contract psort \<longleftrightarrow>
     (\<forall>p key middle xs. middle \<le> length xs \<longrightarrow>
        mset (psort p (\<lambda>a b. key a < key b) middle xs) = mset xs \<and>
        partial_sorted key middle (psort p (\<lambda>a b. key a < key b) middle xs))"

definition hpx_lib_partial_sort ::
    "int32 partial_sort_impl \<Rightarrow> policy \<Rightarrow> int32 list \<Rightarrow> nat \<Rightarrow> error + int32 list" where
  "hpx_lib_partial_sort psort p xs middle =
     (if middle \<le> length xs then Inr (psort p (\<lambda>a b. sint a < sint b) middle xs)
      else Inl OutOfBounds)"

definition hpx_lib_partial_sort_comp ::
    "int32 partial_sort_impl \<Rightarrow> policy \<Rightarrow> int32 list \<Rightarrow> nat \<Rightarrow> (int32 \<Rightarrow> int32 \<Rightarrow> bool)
       \<Rightarrow> error + int32 list" where
  "hpx_lib_partial_sort_comp psort p xs middle cmp =
     (if middle \<le> length xs then Inr (psort p cmp middle xs) else Inl OutOfBounds)"

text \<open>
  One implementation that meets the contract, following the usual selection scheme:
  keep the \<open>middle\<close> smallest elements seen so far (in ascending order, the largest
  last); every later element that is smaller than the largest kept one takes its
  place among them and the largest moves to that element's position; at the end the
  kept elements stand first. \<open>insert_comp\<close> inserts into an ascending list.
\<close>

fun insert_comp :: "('a \<Rightarrow> 'a \<Rightarrow> bool) \<Rightarrow> 'a \<Rightarrow> 'a list \<Rightarrow> 'a list" where
  "insert_comp cmp x [] = [x]"
| "insert_comp cmp x (y # ys) = (if cmp x y then x # y # ys else y # insert_comp cmp x ys)"

definition sort_comp :: "('a \<Rightarrow> 'a \<Rightarrow> bool) \<Rightarrow> 'a list \<Rightarrow> 'a list" where
  "sort_comp cmp xs = foldr (insert_comp cmp) xs []"

fun heap_select :: "('a \<Rightarrow> 'a \<Rightarrow> bool) \<Rightarrow> 'a list \<Rightarrow> 'a list \<Rightarrow> 'a list \<times> 'a list" where
  "heap_select cmp kept [] = (kept, [])"
| "heap_select cmp kept (r # rs) =
     (if kept \<noteq> [] \<and> cmp r (last kept)
      then (case heap_select cmp (insert_comp cmp r (butlast kept)) rs of
              (kept', out) \<Rightarrow> (kept', last kept # out))
      else (case heap_select cmp kept rs of
              (kept', out) \<Rightarrow> (kept', r # out)))"

definition selection_partial_sort :: "'a partial_sort_impl" where
  "selection_partial_sort p cmp middle xs =
     (case heap_select cmp (sort_comp cmp (take middle xs)) (drop middle xs) of
        (kept, out) \<Rightarrow> kept @ out)"

subsection \<open>data\_conversion.cpp: the batch callback\<close>

text \<open>
  What the host function may return: a value that is no typed array, or a typed array
  of one of the eleven element kinds. Only \<open>Uint8Array\<close> and \<open>Int32Array\<close>
  contents are ever read.
\<close>

datatype napi_typedarray_type =
    napi_int8_array | napi_uint8_array | napi_uint8_clamped_array
  | napi_int16_array | napi_uint16_array | napi_int32_array | napi_uint32_array
  | napi_float32_array | napi_float64_array | napi_bigint64_array | napi_biguint64_array

datatype other_array_kind =
    Int8 | Uint8Clamped | Int16 | Uint16 | Uint32 | Float32 | Float64 | BigInt64 | BigUint64

datatype typed_array =
    Uint8Array "uint8 list"
  | Int32Array "int32 list"
  | OtherTypedArray other_array_kind nat

datatype napi_value = NotTypedArray | TypedArray typed_array

fun other_type :: "other_array_kind \<Rightarrow> napi_typedarray_type" where
  "other_type Int8 = napi_int8_array"
| "other_type Uint8Clamped = napi_uint8_clamped_array"
| "other_type Int16 = napi_int16_array"
| "other_type Uint16 = napi_uint16_array"
| "other_type Uint32 = napi_uint32_array"
| "other_type Float32 = napi_float32_array"
| "other_type Float64 = napi_float64_array"
| "other_type BigInt64 = napi_bigint64_array"
| "other_type BigUint64 = napi_biguint64_array"

fun TypedArrayType :: "typed_array \<Rightarrow> napi_typedarray_type" where
  "TypedArrayType (Uint8Array d) = napi_uint8_array"
| "TypedArrayType (Int32Array d) = napi_int32_array"
| "TypedArrayType (OtherTypedArray k n) = other_type k"

fun ElementLength :: "typed_array \<Rightarrow> nat" where
  "ElementLength (Uint8Array d) = length d"
| "ElementLength (Int32Array d) = length d"
| "ElementLength (OtherTypedArray k n) = n"

fun Uint8Data :: "typed_array \<Rightarrow> uint8 list" where
  "Uint8Data (Uint8Array d) = d"
| "Uint8Data _ = []"

fun Int32Data :: "typed_array \<Rightarrow> int32 list" where
  "Int32Data (Int32Array d) = d"
| "Int32Data _ = []"

text \<open>
  A thread-safe function: the status that \<open>NonBlockingCall\<close> returns and the host
  function it wraps, which receives the whole input at once. A host function that
  throws or never answers is outside this model (the worker then waits for ever).
\<close>

datatype napi_status = napi_ok | napi_queue_full | napi_closing

record ThreadSafeFunction =
  call_status :: napi_status
  jsFn :: "int32 list \<Rightarrow> napi_value"

text \<open>\<open>memcpy\<close> of \<open>n\<close> elements over the beginning of the destination.\<close>

definition memcpy :: "'a list \<Rightarrow> 'a list \<Rightarrow> nat \<Rightarrow> 'a list" where
  "memcpy dst src n = take n src @ drop n dst"

text \<open>
  The two batch calls. The lambda handed to \<open>NonBlockingCall\<close> runs on the host
  thread and writes either the error text or the result; the worker waits for it and
  then throws the error text if there is one.
\<close>

definition GetPredicateMaskBatchUsingTSFN ::
    "ThreadSafeFunction \<Rightarrow> int32 list \<Rightarrow> nat \<Rightarrow> error + uint8 list" where
  "GetPredicateMaskBatchUsingTSFN tsfn data len =
     (let msk = replicate len (0::uint8) in
      case vector_from data len of Inl e \<Rightarrow> Inl e
      | Inr dataCopy \<Rightarrow>
        if call_status tsfn \<noteq> napi_ok
        then Inl (RuntimeError ''Failed NonBlockingCall for predicate.'')
        else
          (let (err, msk) =
             (case jsFn tsfn dataCopy of
                NotTypedArray \<Rightarrow> (''Predicate must return a typed array (Uint8Array).'', msk)
              | TypedArray tarr \<Rightarrow>
                  if TypedArrayType tarr \<noteq> napi_uint8_array \<or> ElementLength tarr \<noteq> len
                  then (''Predicate must return a Uint8Array of same length.'', msk)
                  else ([], memcpy msk (Uint8Data tarr) len))
           in if err \<noteq> [] then Inl (RuntimeError err) else Inr msk))"

definition GetKeyArrayBatchUsingTSFN ::
    "ThreadSafeFunction \<Rightarrow> int32 list \<Rightarrow> nat \<Rightarrow> error + int32 list" where
  "GetKeyArrayBatchUsingTSFN tsfn data len =
     (let keys = replicate len (0::int32) in
      case vector_from data len of Inl e \<Rightarrow> Inl e
      | Inr dataCopy \<Rightarrow>
        if call_status tsfn \<noteq> napi_ok
        then Inl (RuntimeError ''Failed NonBlockingCall for key extraction.'')
        else
          (let (err, keys) =
             (case jsFn tsfn dataCopy of
                NotTypedArray \<Rightarrow>
                  (''Key extractor must return an Int32Array of same length as input.'', keys)
              | TypedArray tarr \<Rightarrow>
                  if TypedArrayType tarr \<noteq> napi_int32_array \<or> ElementLength tarr \<noteq> len
                  then (''Key extractor must return Int32Array of same length.'', keys)
                  else ([], memcpy keys (Int32Data tarr) len))
           in if err \<noteq> [] then Inl (RuntimeError err) else Inr keys))"

subsection \<open>hpx\_wrapper.cpp\<close>

definition hpx_sort :: "HPXUserConfig \<Rightarrow> int32 list \<Rightarrow> nat \<Rightarrow> error + int32 list" where
  "hpx_sort cfg src sz =
     (case vector_from src sz of Inl e \<Rightarrow> Inl e
      | Inr input \<Rightarrow> run_with_policy cfg (\<lambda>p. Inr (hpx_lib_sort p input)) (length input))"

definition hpx_copy :: "HPXUserConfig \<Rightarrow> int32 list \<Rightarrow> nat \<Rightarrow> error + int32 list" where
  "hpx_copy cfg src sz =
     (case vector_from src sz of Inl e \<Rightarrow> Inl e
      | Inr input \<Rightarrow> run_with_policy cfg
          (\<lambda>p. Inr (hpx_lib_copy p input (replicate (length input) 0))) (length input))"

definition hpx_equal :: "HPXUserConfig \<Rightarrow> int32 list \<Rightarrow> nat \<Rightarrow> int32 list \<Rightarrow> nat \<Rightarrow> error + bool" where
  "hpx_equal cfg arr1 size1 arr2 size2 =
     (case vector_from arr1 size1 of Inl e \<Rightarrow> Inl e
      | Inr v1 \<Rightarrow>
     (case vector_from arr2 size2 of Inl e \<Rightarrow> Inl e
      | Inr v2 \<Rightarrow>
        (let effective_size = min (length v1) (length v2) in
         run_with_policy cfg (\<lambda>p. Inr (hpx_lib_equal p v1 v2)) effective_size)))"

definition hpx_copy_n :: "HPXUserConfig \<Rightarrow> int32 list \<Rightarrow> nat \<Rightarrow> error + int32 list" where
  "hpx_copy_n cfg src cnt =
     (case vector_from src cnt of Inl e \<Rightarrow> Inl e
      | Inr input \<Rightarrow> run_with_policy cfg
          (\<lambda>p. hpx_lib_copy_n p input cnt (replicate cnt 0)) cnt)"

definition middle_msg :: string where
  "middle_msg = [CHR 0x27] @ ''middle'' @ [CHR 0x27] @ '' index out of bounds''"

definition hpx_partial_sort ::
    "int32 partial_sort_impl \<Rightarrow> HPXUserConfig \<Rightarrow> int32 list \<Rightarrow> nat \<Rightarrow> nat \<Rightarrow> error + int32 list" where
  "hpx_partial_sort psort cfg src sz middle =
     (if middle > sz then Inl (RuntimeError middle_msg)
      else case vector_from src sz of Inl e \<Rightarrow> Inl e
        | Inr input \<Rightarrow>
            run_with_policy cfg (\<lambda>p. hpx_lib_partial_sort psort p input middle) (length input))"

definition hpx_count_if ::
    "HPXUserConfig \<Rightarrow> nat list \<Rightarrow> int32 list \<Rightarrow> nat \<Rightarrow> ('s \<Rightarrow> int32 \<Rightarrow> error + bool \<times> 's) \<Rightarrow> 's
       \<Rightarrow> error + nat" where
  "hpx_count_if cfg ord src sz pred s =
     (case vector_from src sz of Inl e \<Rightarrow> Inl e
      | Inr input \<Rightarrow> run_with_policy cfg (\<lambda>p. hpx_lib_count_if p ord pred s input) sz)"

definition hpx_copy_if ::
    "HPXUserConfig \<Rightarrow> nat list \<Rightarrow> int32 list \<Rightarrow> nat \<Rightarrow> ('s \<Rightarrow> int32 \<Rightarrow> error + bool \<times> 's) \<Rightarrow> 's
       \<Rightarrow> error + int32 list" where
  "hpx_copy_if cfg ord src sz pred s =
     (case vector_from src sz of Inl e \<Rightarrow> Inl e
      | Inr input \<Rightarrow> run_with_policy cfg
          (\<lambda>p. let temp = replicate (length input) 0 in
               case hpx_lib_copy_if p ord pred s input temp of Inl e \<Rightarrow> Inl e
               | Inr (temp, end_it) \<Rightarrow> Inr (take end_it temp)) sz)"

definition hpx_partial_sort_comp ::
    "int32 partial_sort_impl \<Rightarrow> HPXUserConfig \<Rightarrow> int32 list \<Rightarrow> nat \<Rightarrow> nat
       \<Rightarrow> (int32 \<Rightarrow> int32 \<Rightarrow> bool) \<Rightarrow> error + int32 list" where
  "hpx_partial_sort_comp psort cfg src sz middle cmp =
     (let middle = (if middle > sz then sz else middle) in
      case vector_from src sz of Inl e \<Rightarrow> Inl e
      | Inr input \<Rightarrow>
          run_with_policy cfg (\<lambda>p. hpx_lib_partial_sort_comp psort p input middle cmp) sz)"

subsection \<open>addon.cpp: the operations exposed to the host\<close>

text \<open>
  Each operation queues one job; the job's promise is rejected with the error message
  (\<open>Inl\<close>) or resolved with the result (\<open>Inr\<close>). The configuration is the global
  \<open>g_user_config\<close> at the time the job runs.
\<close>

definition Sort :: "HPXUserConfig \<Rightarrow> int32 list \<Rightarrow> error + int32 list" where
  "Sort cfg inputArr = hpx_sort cfg inputArr (length inputArr)"

definition Copy :: "HPXUserConfig \<Rightarrow> int32 list \<Rightarrow> error + int32 list" where
  "Copy cfg inputArr = hpx_copy cfg inputArr (length inputArr)"

definition Equal :: "HPXUserConfig \<Rightarrow> int32 list \<Rightarrow> int32 list \<Rightarrow> error + bool" where
  "Equal cfg v1 v2 = hpx_equal cfg v1 (length v1) v2 (length v2)"

definition CopyN :: "HPXUserConfig \<Rightarrow> int32 list \<Rightarrow> js_number \<Rightarrow> error + int32 list" where
  "CopyN cfg inputArr c =
     (let cnt = unat (Uint32Value c);
          dataSize = length inputArr;
          cnt = (if cnt > dataSize then dataSize else cnt)
      in hpx_copy_n cfg inputArr cnt)"

text \<open>
  \<open>MaskPredicate\<close>: the predicate handed to the library ignores the element and
  reads the mask at a cursor that every call advances (\<open>fetch_add\<close>).
\<close>

record MaskData =
  currentIndex :: nat
  maskHolder :: "uint8 list"

definition MaskPredicate :: "MaskData \<Rightarrow> int32 \<Rightarrow> error + bool \<times> MaskData" where
  "MaskPredicate d val =
     (let idx = currentIndex d; d' = d\<lparr>currentIndex := idx + 1\<rparr> in
      if idx < length (maskHolder d) then Inr (maskHolder d ! idx = 1, d') else Inl OutOfBounds)"

definition CountIf :: "HPXUserConfig \<Rightarrow> nat list \<Rightarrow> ThreadSafeFunction \<Rightarrow> int32 list \<Rightarrow> error + nat" where
  "CountIf cfg ord tsfn inputArr =
     (let dataSize = length inputArr in
      case GetPredicateMaskBatchUsingTSFN tsfn inputArr dataSize of Inl e \<Rightarrow> Inl e
      | Inr msk \<Rightarrow>
          (let maskData = \<lparr>currentIndex = 0, maskHolder = msk\<rparr>
           in hpx_count_if cfg ord inputArr dataSize MaskPredicate maskData))"

definition CopyIf ::
    "HPXUserConfig \<Rightarrow> nat list \<Rightarrow> ThreadSafeFunction \<Rightarrow> int32 list \<Rightarrow> error + int32 list" where
  "CopyIf cfg ord tsfn inputArr =
     (let dataSize = length inputArr in
      case GetPredicateMaskBatchUsingTSFN tsfn inputArr dataSize of Inl e \<Rightarrow> Inl e
      | Inr msk \<Rightarrow>
          (let maskData = \<lparr>currentIndex = 0, maskHolder = msk\<rparr>
           in hpx_copy_if cfg ord inputArr dataSize MaskPredicate maskData))"

definition PartialSort ::
    "int32 partial_sort_impl \<Rightarrow> HPXUserConfig \<Rightarrow> int32 list \<Rightarrow> js_number \<Rightarrow> error + int32 list" where
  "PartialSort psort cfg inputArr m =
     (let middle = Uint32Value m
      in hpx_partial_sort psort cfg inputArr (length inputArr) (unat middle))"

text \<open>
  The index array of the key-based sorts is filled by a loop over \<open>int32_t i\<close> up to
  \<open>(int32_t)dataSize\<close>; entries the loop does not reach stay 0. An index read as
  \<open>(size_t)a\<close> sign-extends. \<open>reorder\<close> is the final loop
  \<open>outVec[i] = inputVec[idx[i]]\<close>.
\<close>

definition index_array :: "nat \<Rightarrow> int32 list" where
  "index_array dataSize =
     map (\<lambda>i. if int i < sint (word_of_nat dataSize :: int32) then word_of_nat i else 0)
       [0..<dataSize]"

definition size_t_of_int32 :: "int32 \<Rightarrow> nat" where
  "size_t_of_int32 a = nat (sint a mod 2 ^ 64)"

definition reorder :: "int32 list \<Rightarrow> int32 list \<Rightarrow> error + int32 list" where
  "reorder inputVec sortedIdx =
     (if list_all (\<lambda>j. size_t_of_int32 j < length inputVec) sortedIdx
      then Inr (map (\<lambda>j. inputVec ! size_t_of_int32 j) sortedIdx)
      else Inl OutOfBounds)"

definition PartialSortComp ::
    "int32 partial_sort_impl \<Rightarrow> HPXUserConfig \<Rightarrow> ThreadSafeFunction \<Rightarrow> int32 list \<Rightarrow> js_number
       \<Rightarrow> error + int32 list" where
  "PartialSortComp psort cfg tsfn inputArr m =
     (let middle = Uint32Value m;
          dataSize = length inputArr;
          middle = (if unat middle > dataSize then word_of_nat dataSize else middle)
      in case GetKeyArrayBatchUsingTSFN tsfn inputArr dataSize of Inl e \<Rightarrow> Inl e
         | Inr keys \<Rightarrow>
        (case vector_from inputArr dataSize of Inl e \<Rightarrow> Inl e
         | Inr inputVec \<Rightarrow>
           (let idx = index_array dataSize;
                cmp = (\<lambda>lhs rhs. sint (keys ! size_t_of_int32 lhs) < sint (keys ! size_t_of_int32 rhs))
            in case hpx_partial_sort_comp psort cfg idx dataSize (unat middle) cmp of Inl e \<Rightarrow> Inl e
               | Inr partiallySortedIdx \<Rightarrow> reorder inputVec partiallySortedIdx)))"

section \<open>The runtime lifecycle\<close>

subsection \<open>Promises, futures and threads\<close>

text \<open>
  A \<open>std::promise<int>\<close> and its future share one state: empty, holding a value, or
  abandoned (the promise was destroyed before a value was set, which a waiting future
  sees as \<open>broken_promise\<close>). \<open>get_future\<close> may be called once. The shared states
  live in a heap; a promise or a future is the address of its state. \<open>future_get\<close>
  is \<open>future::get\<close> at a moment at which nobody else is going to fill the state:
  on an empty state it waits for ever.

  The runtime also keeps what the claims observe about threads: the arguments of
  every engine thread started (\<open>spawn_log\<close>) and the number of joins of the engine
  thread (\<open>joins\<close>).
\<close>

datatype shared_state = Pending | Ready int | Broken

record promise =
  state :: shared_state
  retrieved :: bool

record runtime =
  heap :: "promise list"
  spawn_log :: "(string list \<times> string list) list"
  joins :: nat

definition runtime_new :: runtime where
  "runtime_new = \<lparr>heap = [], spawn_log = [], joins = 0\<rparr>"

definition make_promise :: "runtime \<Rightarrow> nat \<times> runtime" where
  "make_promise rt =
     (length (heap rt), rt\<lparr>heap := heap rt @ [\<lparr>state = Pending, retrieved = False\<rparr>]\<rparr>)"

definition set_value :: "nat \<Rightarrow> int \<Rightarrow> runtime \<Rightarrow> error + runtime" where
  "set_value a v rt =
     (if a < length (heap rt) then
        (if state (heap rt ! a) = Pending
         then Inr (rt\<lparr>heap := (heap rt)[a := (heap rt ! a)\<lparr>state := Ready v\<rparr>]\<rparr>)
         else Inl (FutureError promise_already_satisfied))
      else Inl (FutureError no_state))"

definition get_future :: "nat \<Rightarrow> runtime \<Rightarrow> error + runtime" where
  "get_future a rt =
     (if a < length (heap rt) then
        (if retrieved (heap rt ! a) then Inl (FutureError future_already_retrieved)
         else Inr (rt\<lparr>heap := (heap rt)[a := (heap rt ! a)\<lparr>retrieved := True\<rparr>]\<rparr>))
      else Inl (FutureError no_state))"

definition future_get :: "nat \<Rightarrow> runtime \<Rightarrow> error + int" where
  "future_get a rt =
     (if a < length (heap rt) then
        (case state (heap rt ! a) of
           Ready v \<Rightarrow> Inr v
         | Broken \<Rightarrow> Inl (FutureError broken_promise)
         | Pending \<Rightarrow> Inl Blocked)
      else Inl (FutureError no_state))"

definition drop_promise :: "nat option \<Rightarrow> runtime \<Rightarrow> runtime" where
  "drop_promise ptr rt =
     (case ptr of None \<Rightarrow> rt
      | Some a \<Rightarrow>
          if a < length (heap rt) \<and> state (heap rt ! a) = Pending
          then rt\<lparr>heap := (heap rt)[a := (heap rt ! a)\<lparr>state := Broken\<rparr>]\<rparr>
          else rt)"

definition ready_future :: "int \<Rightarrow> runtime \<Rightarrow> nat \<times> runtime" where
  "ready_future v rt =
     (length (heap rt), rt\<lparr>heap := heap rt @ [\<lparr>state = Ready v, retrieved = True\<rparr>]\<rparr>)"

subsection \<open>hpx\_manager.cpp\<close>

text \<open>
  The members of \<open>HPXManager\<close>: whether \<open>hpx_thread_\<close> is joinable, the two shared
  pointers to promises (null or an address), the atomic flag \<open>running_\<close>, and
  whether \<open>finalize_signal_promise_\<close> has been set.
\<close>

record HPXManager =
  hpx_thread_joinable :: bool
  init_promise :: "nat option"
  finalize_promise :: "nat option"
  running :: bool
  finalize_signal :: bool

definition HPXManager_new :: HPXManager where
  "HPXManager_new = \<lparr>hpx_thread_joinable = False, init_promise = None, finalize_promise = None,
     running = False, finalize_signal = False\<rparr>"

text \<open>
  \<open>InitHPX\<close> and \<open>FinalizeHPX\<close> hold \<open>mutex_\<close> from the first to the last
  statement, so each of them is one atomic step with respect to the other. The only
  guard of \<open>InitHPX\<close> is the flag \<open>running_\<close>. Replacing \<open>init_promise_\<close>
  destroys the promise it pointed to. The statement
  \<open>hpx_thread_ = std::thread(...)\<close> first starts the new thread and then assigns it;
  the assignment calls \<open>std::terminate\<close> when \<open>hpx_thread_\<close> is still joinable.
\<close>

definition InitHPX ::
    "nat \<Rightarrow> string list \<Rightarrow> string list \<Rightarrow> HPXManager \<times> runtime
       \<Rightarrow> (error + nat) \<times> HPXManager \<times> runtime" where
  "InitHPX argc argv config mr =
     (let (m, rt) = mr in
      if running m then
        (let (fut, rt') = ready_future (- 1) rt in (Inr fut, m, rt'))
      else
        (let (p, rt1) = make_promise rt;
             rt2 = drop_promise (init_promise m) rt1;
             m1 = m\<lparr>init_promise := Some p\<rparr>;
             rt3 = rt2\<lparr>spawn_log := spawn_log rt2 @ [(argv, config)]\<rparr>
         in if hpx_thread_joinable m1 then (Inl Terminate, m1, rt3)
            else
              (let m2 = m1\<lparr>hpx_thread_joinable := True\<rparr>
               in case get_future p rt3 of
                    Inl e \<Rightarrow> (Inl e, m2, rt3)
                  | Inr rt4 \<Rightarrow> (Inr p, m2, rt4))))"

text \<open>
  What the engine thread does to the manager. \<open>hpx_main_handler\<close> sets the flag,
  resolves the init promise and parks in \<open>WaitForFinalizeHPX\<close> until the finalize
  signal is set; then it sets the finalize promise to 0 and, after that, clears the
  flag. None of this is done under \<open>mutex_\<close>.
\<close>

definition SetRunning :: "bool \<Rightarrow> HPXManager \<Rightarrow> HPXManager" where
  "SetRunning b m = m\<lparr>running := b\<rparr>"

definition ResolveInitPromise :: "int \<Rightarrow> HPXManager \<times> runtime \<Rightarrow> error + runtime" where
  "ResolveInitPromise v mr =
     (let (m, rt) = mr in
      case init_promise m of Some p \<Rightarrow> set_value p v rt | None \<Rightarrow> Inr rt)"

definition WaitForFinalizeHPX :: "HPXManager \<times> runtime \<Rightarrow> error + runtime" where
  "WaitForFinalizeHPX mr =
     (let (m, rt) = mr in
      if \<not> finalize_signal m then Inl Blocked
      else case finalize_promise m of Some p \<Rightarrow> set_value p 0 rt | None \<Rightarrow> Inr rt)"

definition hpx_main_handler_enter :: "HPXManager \<times> runtime \<Rightarrow> error + HPXManager \<times> runtime" where
  "hpx_main_handler_enter mr =
     (let (m, rt) = mr; m1 = SetRunning True m in
      case ResolveInitPromise 0 (m1, rt) of Inl e \<Rightarrow> Inl e | Inr rt1 \<Rightarrow> Inr (m1, rt1))"

definition hpx_main_handler_leave :: "HPXManager \<times> runtime \<Rightarrow> HPXManager \<times> runtime" where
  "hpx_main_handler_leave mr = (let (m, rt) = mr in (SetRunning False m, rt))"

text \<open>
  \<open>FinalizeHPX\<close>. After setting the signal the caller waits in \<open>fut.get()\<close> for the
  engine thread; the only statement that can end this wait is the \<open>set_value\<close> of
  \<open>WaitForFinalizeHPX\<close>, so the model runs it at this point. The engine clears
  \<open>running_\<close> later, at a moment of its own (\<open>hpx_main_handler_leave\<close>).
  \<open>FinalizeHPX_catch\<close> is the \<open>catch (...)\<close> block: it sets the finalize promise to
  -1 and rethrows.
\<close>

definition FinalizeHPX_catch ::
    "error \<Rightarrow> HPXManager \<times> runtime \<Rightarrow> (error + nat) \<times> HPXManager \<times> runtime" where
  "FinalizeHPX_catch e mr =
     (let (m, rt) = mr in
      case finalize_promise m of
        None \<Rightarrow> (Inl e, m, rt)
      | Some p \<Rightarrow>
          (case set_value p (- 1) rt of
             Inl e' \<Rightarrow> (Inl e', m, rt)
           | Inr rt' \<Rightarrow> (Inl e, m, rt')))"

definition FinalizeHPX :: "HPXManager \<times> runtime \<Rightarrow> (error + nat) \<times> HPXManager \<times> runtime" where
  "FinalizeHPX mr =
     (let (m, rt) = mr in
      if \<not> running m then
        (let (fut, rt') = ready_future (- 1) rt in (Inr fut, m, rt'))
      else case finalize_promise m of
        Some p \<Rightarrow>
          (case get_future p rt of
             Inl e \<Rightarrow> (Inl e, m, rt)
           | Inr rt' \<Rightarrow> (Inr p, m, rt'))
      | None \<Rightarrow>
          (let (p, rt1) = make_promise rt;
               m1 = m\<lparr>finalize_promise := Some p\<rparr>
           in if finalize_signal m1 then
                FinalizeHPX_catch (FutureError promise_already_satisfied) (m1, rt1)
              else
                (let m2 = m1\<lparr>finalize_signal := True\<rparr> in
                 case get_future p rt1 of
                   Inl e \<Rightarrow> FinalizeHPX_catch e (m2, rt1)
                 | Inr rt2 \<Rightarrow>
                     (case WaitForFinalizeHPX (m2, rt2) of
                        Inl e \<Rightarrow> (Inl Blocked, m2, rt2)
                      | Inr rt3 \<Rightarrow>
                          (case future_get p rt3 of
                             Inl e \<Rightarrow>
                               if e = Blocked then (Inl Blocked, m2, rt3)
                               else FinalizeHPX_catch e (m2, rt3)
                           | Inr v \<Rightarrow>
                               (let (m3, rt4) =
                                      (if hpx_thread_joinable m2
                                       then (m2\<lparr>hpx_thread_joinable := False\<rparr>,
                                             rt3\<lparr>joins := joins rt3 + 1\<rparr>)
                                       else (m2, rt3));
                                    (fut, rt5) = ready_future 0 rt4
                                in (Inr fut, m3, rt5)))))))"

subsection \<open>tsfn\_manager.cpp: the callback registry\<close>

text \<open>
  The registry holds shared pointers to thread-safe functions (null, or the identity of
  a handle). \<open>ReleaseAllTSFNs\<close> sets the flag and starts the release thread; it does
  not wait for it. The release thread first takes a copy of the list and clears the
  list (under the lock), then releases every non-null handle of the copy and sets
  \<open>release_completed_\<close>. \<open>released\<close> records the \<open>Release\<close> calls in order.
  \<open>WaitForReleaseCompletion\<close> returns only once \<open>release_completed_\<close> is set; no
  function of the addon calls it, nor \<open>RegisterTSFN\<close>.
\<close>

datatype release_thread = NotStarted | Spawned | Copied "nat option list" | Finished

record TSFNManager =
  tsfn_list :: "nat option list"
  releasing :: bool
  release_thread :: release_thread
  release_completed :: bool
  released :: "nat list"

definition TSFNManager_new :: TSFNManager where
  "TSFNManager_new = \<lparr>tsfn_list = [], releasing = False, release_thread = NotStarted,
     release_completed = False, released = []\<rparr>"

definition RegisterTSFN :: "nat option \<Rightarrow> TSFNManager \<Rightarrow> TSFNManager" where
  "RegisterTSFN tsfn t = (if releasing t then t else t\<lparr>tsfn_list := tsfn_list t @ [tsfn]\<rparr>)"

definition ReleaseAllTSFNs :: "TSFNManager \<Rightarrow> TSFNManager" where
  "ReleaseAllTSFNs t =
     (if releasing t then t else t\<lparr>releasing := True, release_thread := Spawned\<rparr>)"

fun release_each :: "nat option list \<Rightarrow> nat list \<Rightarrow> nat list" where
  "release_each [] acc = acc"
| "release_each (None # rest) acc = release_each rest acc"
| "release_each (Some h # rest) acc = release_each rest (acc @ [h])"

definition release_thread_step :: "TSFNManager \<Rightarrow> TSFNManager" where
  "release_thread_step t =
     (case release_thread t of
        Spawned \<Rightarrow> t\<lparr>release_thread := Copied (tsfn_list t), tsfn_list := []\<rparr>
      | Copied tsfn_copy \<Rightarrow>
          t\<lparr>released := release_each tsfn_copy (released t), release_completed := True,
            release_thread := Finished\<rparr>
      | _ \<Rightarrow> t)"

definition IsReleasing :: "TSFNManager \<Rightarrow> bool" where
  "IsReleasing t = releasing t"

definition WaitForReleaseCompletion :: "TSFNManager \<Rightarrow> error + unit" where
  "WaitForReleaseCompletion t = (if release_completed t then Inr () else Inl Blocked)"

subsection \<open>async\_helpers.hpp and addon.cpp: the finalize job\<close>

text \<open>
  A job queued by \<open>QueueAsyncWork\<close> runs its execute function on a worker thread and
  then, on the host thread, settles its promise. The process state holds the manager
  singleton, the runtime, the registry and the state of one \<open>finalizeHPX\<close> job:
  queued, executed with its result and error text, settled, or aborted (the worker
  never returns, or the process has terminated).
\<close>

datatype settlement = Resolved | Rejected string

datatype job = Queued | Executed int string | Settled settlement | Aborted error

record process =
  g_hpx_manager_instance :: "HPXManager option"
  rts :: runtime
  tsfns :: TSFNManager
  finalize_job :: job

definition getHPXManager :: "process \<Rightarrow> HPXManager \<times> process" where
  "getHPXManager p =
     (case g_hpx_manager_instance p of
        None \<Rightarrow> (HPXManager_new, p\<lparr>g_hpx_manager_instance := Some HPXManager_new\<rparr>)
      | Some m \<Rightarrow> (m, p))"

text \<open>
  \<open>resetHPXManager\<close> destroys the singleton: the destructor finalizes a manager that
  is still running (\<open>FinalizeHPX().get()\<close>, every exception swallowed), and the
  destruction of a \<open>std::thread\<close> member that is still joinable calls
  \<open>std::terminate\<close>.
\<close>

definition destroy_HPXManager :: "HPXManager \<times> runtime \<Rightarrow> error + runtime" where
  "destroy_HPXManager mr =
     (let (m, rt) = mr in
      case (if hpx_thread_joinable m \<and> running m then
              (case FinalizeHPX (m, rt) of
                 (Inr fut, m', rt') \<Rightarrow>
                   (if future_get fut rt' = Inl Blocked then Inl Blocked else Inr (m', rt'))
               | (Inl e, m', rt') \<Rightarrow>
                   (if e = Blocked \<or> e = Terminate then Inl e else Inr (m', rt')))
            else Inr (m, rt)) of
        Inl e \<Rightarrow> Inl e
      | Inr (m1, rt1) \<Rightarrow>
          if hpx_thread_joinable m1 then Inl Terminate
          else Inr (drop_promise (init_promise m1) (drop_promise (finalize_promise m1) rt1)))"

definition resetHPXManager :: "process \<Rightarrow> error + process" where
  "resetHPXManager p =
     (case g_hpx_manager_instance p of
        None \<Rightarrow> Inr p
      | Some m \<Rightarrow>
          (case destroy_HPXManager (m, rts p) of
             Inl e \<Rightarrow> Inl e
           | Inr rt' \<Rightarrow> Inr (p\<lparr>g_hpx_manager_instance := None, rts := rt'\<rparr>)))"

fun what :: "error \<Rightarrow> string" where
  "what (RuntimeError msg) = msg"
| "what (FutureError c) = ''std::future_error''"
| "what e = ''std::exception''"

text \<open>
  The execute function of \<open>finalizeHPX\<close>: finalize, wait for the result, reset the
  singleton, start the release of the callbacks. An exception skips the last two.
\<close>

definition FinalizeHPX_execute :: "process \<Rightarrow> process" where
  "FinalizeHPX_execute p =
     (let (manager, p1) = getHPXManager p in
      case FinalizeHPX (manager, rts p1) of
        (Inl e, m', rt') \<Rightarrow>
          (let p2 = p1\<lparr>g_hpx_manager_instance := Some m', rts := rt'\<rparr> in
           if e = Terminate \<or> e = Blocked then p2\<lparr>finalize_job := Aborted e\<rparr>
           else p2\<lparr>finalize_job := Executed 0 (what e)\<rparr>)
      | (Inr fut, m', rt') \<Rightarrow>
          (let p2 = p1\<lparr>g_hpx_manager_instance := Some m', rts := rt'\<rparr> in
           case future_get fut rt' of
             Inl e \<Rightarrow>
               if e = Terminate \<or> e = Blocked then p2\<lparr>finalize_job := Aborted e\<rparr>
               else p2\<lparr>finalize_job := Executed 0 (what e)\<rparr>
           | Inr fin_res \<Rightarrow>
               (let err = (if fin_res \<noteq> 0 then ''Failed to finalize HPX.'' else []) in
                case resetHPXManager p2 of
                  Inl e \<Rightarrow> p2\<lparr>finalize_job := Aborted e\<rparr>
                | Inr p3 \<Rightarrow>
                    p3\<lparr>tsfns := ReleaseAllTSFNs (tsfns p3),
                       finalize_job := Executed fin_res err\<rparr>)))"

definition complete :: "int \<Rightarrow> string \<Rightarrow> settlement" where
  "complete res err = (if err \<noteq> [] then Rejected err else Resolved)"

text \<open>
  The threads of a finalize: the worker that executes the job, the release thread and
  the host thread that settles the promise once the job has executed. A schedule is a
  list of threads; a scheduled thread takes its next step if it has one.
\<close>

datatype thread = Worker | ReleaseThread | HostThread

fun step :: "thread \<Rightarrow> process \<Rightarrow> process" where
  "step Worker p = (case finalize_job p of Queued \<Rightarrow> FinalizeHPX_execute p | _ \<Rightarrow> p)"
| "step ReleaseThread p = p\<lparr>tsfns := release_thread_step (tsfns p)\<rparr>"
| "step HostThread p =
     (case finalize_job p of
        Executed res err \<Rightarrow> p\<lparr>finalize_job := Settled (complete res err)\<rparr>
      | _ \<Rightarrow> p)"

fun run :: "thread list \<Rightarrow> process \<Rightarrow> process" where
  "run [] p = p"
| "run (t # ts) p = run ts (step t p)"

subsection \<open>States used as concrete inputs\<close>

text \<open>
  \<open>starting_state\<close>: a new manager after the first \<open>InitHPX\<close>, the engine thread
  started but \<open>hpx_main_handler\<close> not yet entered. \<open>running_state\<close>: after the
  handler has set the flag and resolved the init promise. \<open>finalized_once\<close>: after a
  first complete \<open>FinalizeHPX\<close>. \<open>running_process hs\<close>: a process with a running
  engine, the handles \<open>hs\<close> registered and a \<open>finalizeHPX\<close> job queued.
\<close>

definition starting_state :: "HPXManager \<times> runtime" where
  "starting_state =
     snd (InitHPX 1 [''hpxaddon''] [''hpx.os_threads=2''] (HPXManager_new, runtime_new))"

definition running_state :: "HPXManager \<times> runtime" where
  "running_state =
     (case hpx_main_handler_enter starting_state of Inr mr \<Rightarrow> mr | Inl e \<Rightarrow> starting_state)"

definition finalized_once :: "HPXManager \<times> runtime" where
  "finalized_once = snd (FinalizeHPX running_state)"

definition running_process :: "nat option list \<Rightarrow> process" where
  "running_process hs =
     \<lparr>g_hpx_manager_instance = Some (fst running_state), rts = snd running_state,
      tsfns = TSFNManager_new\<lparr>tsfn_list := hs\<rparr>, finalize_job = Queued\<rparr>"

subsection \<open>Conditions on process states\<close>

text \<open>
  A manager on which no finalize has been requested yet, and a process in which a
  \<open>finalizeHPX\<close> job has just been queued on such a manager while the registry has
  not started to release.
\<close>

definition fresh_running :: "HPXManager \<Rightarrow> bool" where
  "fresh_running m \<longleftrightarrow>
     running m \<and> hpx_thread_joinable m \<and> finalize_promise m = None \<and> \<not> finalize_signal m"

definition finalize_requested :: "process \<Rightarrow> bool" where
  "finalize_requested p \<longleftrightarrow>
     finalize_job p = Queued \<and>
     (case g_hpx_manager_instance p of Some m \<Rightarrow> fresh_running m | None \<Rightarrow> False) \<and>
     \<not> releasing (tsfns p) \<and> release_thread (tsfns p) = NotStarted \<and>
     \<not> release_completed (tsfns p) \<and> released (tsfns p) = []"

text \<open>
  The invariant of a finalize: for each state of the job and of the release thread,
  what holds of the singleton, the join count and the registry; \<open>hs\<close> are the
  handles registered and \<open>j\<close> the join count when the job was queued.
\<close>

definition finalize_inv :: "nat option list \<Rightarrow> nat \<Rightarrow> process \<Rightarrow> bool" where
  "finalize_inv hs j p \<longleftrightarrow>
     (case finalize_job p of
        Queued \<Rightarrow>
          (case g_hpx_manager_instance p of Some m \<Rightarrow> fresh_running m | None \<Rightarrow> False) \<and>
          joins (rts p) = j \<and> release_thread (tsfns p) = NotStarted
      | Executed res err \<Rightarrow>
          res = 0 \<and> err = [] \<and> g_hpx_manager_instance p = None \<and> joins (rts p) = j + 1 \<and>
          release_thread (tsfns p) \<noteq> NotStarted
      | Settled out \<Rightarrow>
          out = Resolved \<and> g_hpx_manager_instance p = None \<and> joins (rts p) = j + 1 \<and>
          release_thread (tsfns p) \<noteq> NotStarted
      | Aborted e \<Rightarrow> False) \<and>
     (case release_thread (tsfns p) of
        NotStarted \<Rightarrow>
          \<not> releasing (tsfns p) \<and> tsfn_list (tsfns p) = hs \<and> released (tsfns p) = [] \<and>
          \<not> release_completed (tsfns p)
      | Spawned \<Rightarrow>
          releasing (tsfns p) \<and> tsfn_list (tsfns p) = hs \<and> released (tsfns p) = [] \<and>
          \<not> release_completed (tsfns p)
      | Copied c \<Rightarrow>
          releasing (tsfns p) \<and> c = hs \<and> released (tsfns p) = [] \<and>
          \<not> release_completed (tsfns p)
      | Finished \<Rightarrow>
          releasing (tsfns p) \<and> release_completed (tsfns p) \<and>
          released (tsfns p) = release_each hs [])"

section \<open>Definitions in the words of the specification\<close>

subsection \<open>The policy choice in the words of the specification\<close>

text \<open>
  The specification names the configured policy: \<open>seq\<close>, \<open>par\<close> or \<open>par_unseq\<close>,
  and Parallel when the name is none of them. This definition follows those words; it
  is compared with \<open>run_with_policy\<close> below.
\<close>

definition configured_policy :: "string \<Rightarrow> policy" where
  "configured_policy name =
     (if name = ''seq'' then seq
      else if name = ''par'' then par
      else if name = ''par_unseq'' then par_unseq
      else par)"

subsection \<open>The shape of a batch response in the words of the specification\<close>

text \<open>
  The specification calls the failure of a batch call on a malformed response
  \<open>ShapeMismatch\<close>; in the code it is a \<open>std::runtime_error\<close> with one of four
  texts. A response is well shaped when it is a typed array of the expected element
  kind and of the length of the request.
\<close>

definition ShapeMismatch :: "error set" where
  "ShapeMismatch = RuntimeError `
     {''Predicate must return a typed array (Uint8Array).'',
      ''Predicate must return a Uint8Array of same length.'',
      ''Key extractor must return an Int32Array of same length as input.'',
      ''Key extractor must return Int32Array of same length.''}"

definition mask_response_ok :: "napi_value \<Rightarrow> nat \<Rightarrow> bool" where
  "mask_response_ok ret n = (case ret of TypedArray (Uint8Array m) \<Rightarrow> length m = n | _ \<Rightarrow> False)"

definition key_response_ok :: "napi_value \<Rightarrow> nat \<Rightarrow> bool" where
  "key_response_ok ret n = (case ret of TypedArray (Int32Array m) \<Rightarrow> length m = n | _ \<Rightarrow> False)"

subsection \<open>Host functions used as concrete inputs\<close>

definition all_true_tsfn :: ThreadSafeFunction where
  "all_true_tsfn = \<lparr>call_status = napi_ok, jsFn = (\<lambda>xs. TypedArray (Uint8Array (map (\<lambda>x. 1) xs)))\<rparr>"

definition key_tsfn :: ThreadSafeFunction where
  "key_tsfn = \<lparr>call_status = napi_ok, jsFn = (\<lambda>xs. TypedArray (Int32Array xs))\<rparr>"

definition short_mask_tsfn :: ThreadSafeFunction where
  "short_mask_tsfn = \<lparr>call_status = napi_ok, jsFn = (\<lambda>xs. TypedArray (Uint8Array [1]))\<rparr>"

section \<open>Properties\<close>

lemma run_with_policy_const: "run_with_policy cfg (\<lambda>p. r) n = r"
  by (simp add: run_with_policy_def)

lemma vector_from_all: "vector_from xs (length xs) = Inr xs"
  by (simp add: vector_from_def)

subsection \<open>Policy selection\<close>

text \<open>
  Claim C5. Every wrapper hands its work to \<open>run_with_policy\<close> together with the
  input size. Below the configured threshold the work runs under the sequential
  policy whatever the configuration says; at or above the threshold it runs under the
  configured policy, which is Parallel unless the name is \<open>seq\<close> or \<open>par_unseq\<close>.
\<close>

theorem run_with_policy_threshold:
  "(sz < threshold cfg \<longrightarrow> run_with_policy cfg f sz = f seq) \<and>
   (threshold cfg \<le> sz \<longrightarrow>
      run_with_policy cfg f sz = f (configured_policy (executionPolicy cfg)))"
  by (simp add: run_with_policy_def configured_policy_def)

theorem run_with_policy_threshold_witness:
  "run_with_policy (default_config\<lparr>executionPolicy := ''par_unseq''\<rparr>) id 9999 = seq \<and>
   run_with_policy (default_config\<lparr>executionPolicy := ''par_unseq''\<rparr>) id 10000 = par_unseq \<and>
   run_with_policy default_config id 10000 = par"
  using run_with_policy_threshold [of 9999 "default_config\<lparr>executionPolicy := ''par_unseq''\<rparr>" id]
    run_with_policy_threshold [of 10000 "default_config\<lparr>executionPolicy := ''par_unseq''\<rparr>" id]
    run_with_policy_threshold [of 10000 default_config id]
  by (simp add: default_config_def configured_policy_def)

subsection \<open>sort\<close>

lemma Sort_eq: "Sort cfg xs = Inr (sort_key sint xs)"
  by (simp add: Sort_def hpx_sort_def vector_from_all run_with_policy_const hpx_lib_sort_def)

text \<open>
  Claim C7. Under every configuration, sorting \<open>[5,3,1,4,2]\<close> gives \<open>[1,2,3,4,5]\<close>,
  sorting the empty array gives the empty array, and sorting any array succeeds with
  a result that a second sort returns unchanged.
\<close>

theorem Sort_round_trip_idempotent:
  "Sort cfg [5, 3, 1, 4, 2] = Inr [1, 2, 3, 4, 5] \<and> Sort cfg [] = Inr [] \<and>
   (\<exists>ys. Sort cfg xs = Inr ys \<and> Sort cfg ys = Inr ys)"
proof (intro conjI)
  show "Sort cfg [5, 3, 1, 4, 2] = Inr [1, 2, 3, 4, 5]"
    by (simp add: Sort_eq)
  show "Sort cfg [] = Inr []"
    by (simp add: Sort_eq)
  have "sorted (map sint (sort_key sint xs))"
    by (rule sorted_sort_key)
  then have "sort_key sint (sort_key sint xs) = sort_key sint xs"
    by (rule sort_key_id_if_sorted)
  then show "\<exists>ys. Sort cfg xs = Inr ys \<and> Sort cfg ys = Inr ys"
    by (simp add: Sort_eq)
qed

subsection \<open>copyN\<close>

lemma Uint32Value_in_range:
  assumes "0 \<le> k" "k < 2 ^ 32"
  shows "unat (Uint32Value (Num (of_int k))) = nat k"
proof -
  have "unat (word_of_int k :: uint32) = nat (take_bit 32 k)"
    by (simp add: unsigned_of_int)
  also have "take_bit 32 k = k"
    using assms by (simp add: take_bit_int_eq_self)
  finally show ?thesis
    using assms(1) by simp
qed

text \<open>
  Claim C8 as stated fails for a requested count of \<open>2^32 + 2\<close> on an array of three
  elements: the count is reduced modulo \<open>2^32\<close> to 2 before it is clamped, and
  \<open>copyN\<close> returns the first two elements, not the first \<open>min c n = 3\<close>.
\<close>

theorem CopyN_wraps_counterexample:
  "CopyN default_config [1, 2, 3] (Num 4294967298) = Inr [1, 2]"
proof -
  have "Uint32Value (Num 4294967298) = 2"
    by simp
  then show ?thesis
    by (simp add: CopyN_def hpx_copy_n_def vector_from_def hpx_lib_copy_n_def
        run_with_policy_const Let_def)
qed

text \<open>
  Claim C8 (amended). For an input of length \<open>n\<close> and a requested count \<open>c\<close>,
  \<open>copyN\<close> converts \<open>c\<close> to an unsigned 32-bit integer, clamps that value to \<open>n\<close>
  and succeeds with exactly the first \<open>min (uint32 c) n\<close> elements of the input; a
  converted count larger than the input is clamped, not rejected. In particular, for
  an integer count \<open>0 \<le> c < 2^32\<close> the result is the first \<open>min c n\<close> elements.
\<close>

theorem CopyN_clamps:
  "CopyN cfg xs c = Inr (take (min (unat (Uint32Value c)) (length xs)) xs) \<and>
   (0 \<le> k \<and> k < 2 ^ 32 \<longrightarrow>
      CopyN cfg xs (Num (of_int k)) = Inr (take (min (nat k) (length xs)) xs))"
proof -
  have g: "CopyN cfg xs c' = Inr (take (min (unat (Uint32Value c')) (length xs)) xs)" for c'
    by (simp add: CopyN_def hpx_copy_n_def vector_from_def hpx_lib_copy_n_def
        run_with_policy_const Let_def min_def)
  show ?thesis
    using g [of c] g [of "Num (of_int k)"] Uint32Value_in_range [of k] by simp
qed

theorem CopyN_clamps_witness:
  "CopyN default_config [1, 2, 3] (Num 5) = Inr [1, 2, 3] \<and>
   CopyN default_config [1, 2, 3] (Num 2) = Inr [1, 2] \<and>
   CopyN default_config [1, 2, 3] MinusInfinity = Inr []"
  using CopyN_clamps [of default_config "[1, 2, 3]" "Num 5" 5]
    CopyN_clamps [of default_config "[1, 2, 3]" "Num 2" 2]
    CopyN_clamps [of default_config "[1, 2, 3]" MinusInfinity 0]
  by simp

subsection \<open>equal\<close>

lemma hpx_lib_equal_iff:
  "hpx_lib_equal p xs ys = (length xs = length ys \<and> list_all2 (=) xs ys)"
  by (induction p xs ys rule: hpx_lib_equal.induct) auto

text \<open>
  Claim C10. \<open>equal\<close> resolves to true exactly when the two arrays have the same
  length and agree element by element; for arrays of different lengths it resolves to
  false: it neither compares the common prefix nor fails.
\<close>

theorem Equal_iff:
  "Equal cfg xs ys = Inr (length xs = length ys \<and> list_all2 (=) xs ys) \<and>
   (length xs \<noteq> length ys \<longrightarrow> Equal cfg xs ys = Inr False)"
  by (simp add: Equal_def hpx_equal_def vector_from_all run_with_policy_const hpx_lib_equal_iff)

theorem Equal_iff_witness:
  "Equal default_config [1, 2] [1, 2, 3] = Inr False \<and>
   Equal default_config [1, 2] [1, 2] = Inr True"
  using Equal_iff [of default_config "[1, 2]" "[1, 2, 3]"]
    Equal_iff [of default_config "[1, 2]" "[1, 2]"]
  by simp

subsection \<open>The batch callback checks the shape of the response\<close>

lemma mask_result:
  "GetPredicateMaskBatchUsingTSFN tsfn data (length data) =
     (if call_status tsfn \<noteq> napi_ok then Inl (RuntimeError ''Failed NonBlockingCall for predicate.'')
      else case jsFn tsfn data of
         NotTypedArray \<Rightarrow> Inl (RuntimeError ''Predicate must return a typed array (Uint8Array).'')
       | TypedArray (Uint8Array m) \<Rightarrow>
           if length m = length data then Inr m
           else Inl (RuntimeError ''Predicate must return a Uint8Array of same length.'')
       | TypedArray _ \<Rightarrow> Inl (RuntimeError ''Predicate must return a Uint8Array of same length.''))"
  by (auto simp: GetPredicateMaskBatchUsingTSFN_def vector_from_all memcpy_def Let_def
      split: napi_value.splits typed_array.splits elim: other_type.elims)

lemma keys_result:
  "GetKeyArrayBatchUsingTSFN tsfn data (length data) =
     (if call_status tsfn \<noteq> napi_ok then Inl (RuntimeError ''Failed NonBlockingCall for key extraction.'')
      else case jsFn tsfn data of
         NotTypedArray \<Rightarrow> Inl (RuntimeError ''Key extractor must return an Int32Array of same length as input.'')
       | TypedArray (Int32Array m) \<Rightarrow>
           if length m = length data then Inr m
           else Inl (RuntimeError ''Key extractor must return Int32Array of same length.'')
       | TypedArray _ \<Rightarrow> Inl (RuntimeError ''Key extractor must return Int32Array of same length.''))"
  by (auto simp: GetKeyArrayBatchUsingTSFN_def vector_from_all memcpy_def Let_def
      split: napi_value.splits typed_array.splits elim: other_type.elims)

text \<open>
  Claim C4. For both batch calls (predicate mask and key array): when the host
  function returns anything but a typed array of the expected element kind and of
  the request's length, the call fails with a shape-mismatch error; and whenever the
  call succeeds, the result is exactly the host's response, of the request's length:
  nothing is truncated or padded.
\<close>

theorem batch_shape_checked:
  "(call_status tsfn = napi_ok \<and> \<not> mask_response_ok (jsFn tsfn data) (length data) \<longrightarrow>
      (\<exists>e \<in> ShapeMismatch. GetPredicateMaskBatchUsingTSFN tsfn data (length data) = Inl e)) \<and>
   (GetPredicateMaskBatchUsingTSFN tsfn data (length data) = Inr msk \<longrightarrow>
      length msk = length data \<and> jsFn tsfn data = TypedArray (Uint8Array msk)) \<and>
   (call_status tsfn = napi_ok \<and> \<not> key_response_ok (jsFn tsfn data) (length data) \<longrightarrow>
      (\<exists>e \<in> ShapeMismatch. GetKeyArrayBatchUsingTSFN tsfn data (length data) = Inl e)) \<and>
   (GetKeyArrayBatchUsingTSFN tsfn data (length data) = Inr keys \<longrightarrow>
      length keys = length data \<and> jsFn tsfn data = TypedArray (Int32Array keys))"
proof (intro conjI impI)
  assume "call_status tsfn = napi_ok \<and> \<not> mask_response_ok (jsFn tsfn data) (length data)"
  then show "\<exists>e \<in> ShapeMismatch. GetPredicateMaskBatchUsingTSFN tsfn data (length data) = Inl e"
    by (auto simp: mask_result mask_response_ok_def ShapeMismatch_def
        split: napi_value.splits typed_array.splits)
next
  assume "GetPredicateMaskBatchUsingTSFN tsfn data (length data) = Inr msk"
  then show "length msk = length data" "jsFn tsfn data = TypedArray (Uint8Array msk)"
    by (auto simp: mask_result split: napi_value.splits typed_array.splits if_splits)
next
  assume "call_status tsfn = napi_ok \<and> \<not> key_response_ok (jsFn tsfn data) (length data)"
  then show "\<exists>e \<in> ShapeMismatch. GetKeyArrayBatchUsingTSFN tsfn data (length data) = Inl e"
    by (auto simp: keys_result key_response_ok_def ShapeMismatch_def
        split: napi_value.splits typed_array.splits)
next
  assume "GetKeyArrayBatchUsingTSFN tsfn data (length data) = Inr keys"
  then show "length keys = length data" "jsFn tsfn data = TypedArray (Int32Array keys)"
    by (auto simp: keys_result split: napi_value.splits typed_array.splits if_splits)
qed

theorem batch_shape_checked_witness:
  "(\<exists>e \<in> ShapeMismatch. GetPredicateMaskBatchUsingTSFN short_mask_tsfn [1, 2, 3] 3 = Inl e) \<and>
   (\<exists>e \<in> ShapeMismatch. GetKeyArrayBatchUsingTSFN short_mask_tsfn [1, 2, 3] 3 = Inl e) \<and>
   GetPredicateMaskBatchUsingTSFN all_true_tsfn [1, 2, 3] 3 = Inr [1, 1, 1] \<and>
   GetKeyArrayBatchUsingTSFN key_tsfn [1, 2, 3] 3 = Inr [1, 2, 3]"
proof -
  have a: "GetPredicateMaskBatchUsingTSFN all_true_tsfn [1, 2, 3] 3 = Inr [1, 1, 1]"
    using mask_result [of all_true_tsfn "[1, 2, 3]"]
    by (simp add: all_true_tsfn_def numeral_3_eq_3)
  have b: "GetKeyArrayBatchUsingTSFN key_tsfn [1, 2, 3] 3 = Inr [1, 2, 3]"
    using keys_result [of key_tsfn "[1, 2, 3]"]
    by (simp add: key_tsfn_def numeral_3_eq_3)
  show ?thesis
    using batch_shape_checked [of short_mask_tsfn "[1, 2, 3]" "[1, 1, 1]" "[1, 2, 3]"]
      batch_shape_checked [of all_true_tsfn "[1, 2, 3]" "[1, 1, 1]" "[1, 2, 3]"]
      batch_shape_checked [of key_tsfn "[1, 2, 3]" "[1, 1, 1]" "[1, 2, 3]"] a b
    by (simp add: short_mask_tsfn_def mask_response_ok_def key_response_ok_def numeral_3_eq_3)
qed

subsection \<open>countIf and copyIf with an all-true mask\<close>

lemma apply_pred_all_true:
  "k + length xs \<le> n \<Longrightarrow>
   apply_pred MaskPredicate \<lparr>currentIndex = k, maskHolder = replicate n 1\<rparr> xs =
     Inr (replicate (length xs) True, \<lparr>currentIndex = k + length xs, maskHolder = replicate n 1\<rparr>)"
  by (induction xs arbitrary: k) (auto simp: MaskPredicate_def Let_def)

lemma call_order_perm: "sort (call_order p ord n) = [0..<n]"
  by (simp add: call_order_def sorted_sort_id)

lemma call_order_length: "length (call_order p ord n) = n"
  using arg_cong [OF call_order_perm, of length p ord n] by simp

lemma call_order_set: "set (call_order p ord n) = {0..<n}"
  using arg_cong [OF call_order_perm, of set p ord n] by simp

lemma lib_count_if_all_true:
  "hpx_lib_count_if p ord MaskPredicate \<lparr>currentIndex = 0, maskHolder = replicate (length xs) 1\<rparr> xs
     = Inr (length xs)"
  by (simp add: hpx_lib_count_if_def Let_def apply_pred_all_true call_order_length)

lemma zip_replicate_True: "map fst (filter snd (zip xs (replicate (length xs) True))) = xs"
  by (induction xs) auto

lemma lib_copy_if_all_true:
  "hpx_lib_copy_if p ord MaskPredicate \<lparr>currentIndex = 0, maskHolder = replicate (length xs) 1\<rparr> xs dst
     = Inr (xs @ drop (length xs) dst, length xs)"
proof -
  let ?calls = "call_order p ord (length xs)"
  have sel: "map fst (filter snd (zip ?calls (replicate (length xs) True))) = ?calls"
    using zip_replicate_True [of ?calls] by (simp add: call_order_length)
  have all: "filter (\<lambda>i. i \<in> set ?calls) [0..<length xs] = [0..<length xs]"
    by (simp add: call_order_set)
  have calls: "apply_pred MaskPredicate \<lparr>currentIndex = 0, maskHolder = replicate (length xs) 1\<rparr>
      (map ((!) xs) ?calls) =
      Inr (replicate (length xs) True, \<lparr>currentIndex = length xs, maskHolder = replicate (length xs) 1\<rparr>)"
    using apply_pred_all_true [of 0 "map ((!) xs) ?calls" "length xs"]
    by (simp add: call_order_length)
  show ?thesis
    unfolding hpx_lib_copy_if_def Let_def calls
    by (simp only: sum.case prod.case sel all map_nth length_map length_upt minus_nat.diff_0)
qed

text \<open>
  Claim C6. When the host predicate marks every element true (a mask of ones),
  \<open>countIf\<close> resolves to the length of the input and \<open>copyIf\<close> to the whole
  input, which is what \<open>copy\<close> resolves to; this holds under every configuration
  and every order in which a parallel policy calls the predicate.
\<close>

theorem all_true_predicate:
  "jsFn tsfn xs = TypedArray (Uint8Array (replicate (length xs) 1)) \<Longrightarrow>
   call_status tsfn = napi_ok \<Longrightarrow>
   CountIf cfg ord tsfn xs = Inr (length xs) \<and>
   CopyIf cfg ord tsfn xs = Inr xs \<and> CopyIf cfg ord tsfn xs = Copy cfg xs"
  by (simp add: CountIf_def CopyIf_def Copy_def mask_result hpx_count_if_def hpx_copy_if_def
      hpx_copy_def hpx_lib_copy_def vector_from_all lib_count_if_all_true lib_copy_if_all_true
      run_with_policy_const)

theorem all_true_predicate_witness:
  "CountIf (default_config\<lparr>threshold := 2\<rparr>) [2, 0, 1] all_true_tsfn [7, 8, 9] = Inr 3 \<and>
   CopyIf (default_config\<lparr>threshold := 2\<rparr>) [2, 0, 1] all_true_tsfn [7, 8, 9] = Inr [7, 8, 9]"
  using all_true_predicate [of all_true_tsfn "[7, 8, 9]" "default_config\<lparr>threshold := 2\<rparr>" "[2, 0, 1]"]
  by (simp add: all_true_tsfn_def)

subsection \<open>The selection scheme meets the contract of the partial sort\<close>

lemma run_with_policy_cases:
  "(\<And>p. P (f p)) \<Longrightarrow> P (run_with_policy cfg f n)"
  by (simp add: run_with_policy_def)

lemma mset_insert_comp: "mset (insert_comp cmp x ys) = add_mset x (mset ys)"
  by (induction ys) auto

lemma mset_sort_comp: "mset (sort_comp cmp xs) = mset xs"
  by (induction xs) (auto simp: sort_comp_def mset_insert_comp)

lemma length_insert_comp: "length (insert_comp cmp x ys) = Suc (length ys)"
  by (induction ys) auto

lemma length_sort_comp: "length (sort_comp cmp xs) = length xs"
  by (induction xs) (auto simp: sort_comp_def length_insert_comp)

lemma set_insert_comp: "set (insert_comp cmp x ys) = insert x (set ys)"
  by (induction ys) auto

lemma sorted_insert_comp:
  "sorted (map key ys) \<Longrightarrow> sorted (map key (insert_comp (\<lambda>a b. key a < key b) x ys))"
  for key :: "'a \<Rightarrow> int"
  by (induction ys) (auto simp: set_insert_comp)

lemma sorted_sort_comp: "sorted (map key (sort_comp (\<lambda>a b. key a < key b) xs))"
  for key :: "'a \<Rightarrow> int"
  by (induction xs) (auto simp: sort_comp_def sorted_insert_comp)

lemma sorted_butlast_key: "sorted (map key ys) \<Longrightarrow> sorted (map key (butlast ys))"
  for key :: "'a \<Rightarrow> int"
  by (simp add: map_butlast sorted_butlast)

lemma sorted_le_last:
  assumes "sorted (map key ys)" "y \<in> set ys"
  shows "key y \<le> key (last ys)"
proof -
  from assms(2) have ne: "ys \<noteq> []" by auto
  from assms(2) obtain i where i: "i < length ys" "ys ! i = y"
    by (auto simp: in_set_conv_nth)
  have "map key ys ! i \<le> map key ys ! (length ys - 1)"
    using assms(1) i(1) by (intro sorted_nth_mono) auto
  with i ne show ?thesis
    by (simp add: last_conv_nth)
qed

lemma heap_select_length:
  "heap_select cmp kept rs = (kept', out) \<Longrightarrow> length kept' = length kept \<and> length out = length rs"
proof (induction rs arbitrary: kept kept' out)
  case Nil
  then show ?case by simp
next
  case (Cons r rs)
  show ?case
  proof (cases "kept \<noteq> [] \<and> cmp r (last kept)")
    case True
    with Cons.prems obtain out' where
      h: "heap_select cmp (insert_comp cmp r (butlast kept)) rs = (kept', out')"
      and o: "out = last kept # out'"
      by (auto split: prod.splits)
    from Cons.IH [OF h] True o show ?thesis
      by (simp add: length_insert_comp)
  next
    case False
    with Cons.prems obtain out' where
      h: "heap_select cmp kept rs = (kept', out')" and o: "out = r # out'"
      by (auto split: prod.splits)
    from Cons.IH [OF h] o show ?thesis by simp
  qed
qed

lemma heap_select_mset:
  "heap_select cmp kept rs = (kept', out) \<Longrightarrow> mset kept' + mset out = mset kept + mset rs"
proof (induction rs arbitrary: kept kept' out)
  case Nil
  then show ?case by simp
next
  case (Cons r rs)
  show ?case
  proof (cases "kept \<noteq> [] \<and> cmp r (last kept)")
    case True
    with Cons.prems obtain out' where
      h: "heap_select cmp (insert_comp cmp r (butlast kept)) rs = (kept', out')"
      and o: "out = last kept # out'"
      by (auto split: prod.splits)
    from True have "mset kept = add_mset (last kept) (mset (butlast kept))"
      by (metis append_butlast_last_id mset.simps(2) mset_append union_mset_add_mset_right
          add.right_neutral mset.simps(1))
    with Cons.IH [OF h] o show ?thesis
      by (simp add: mset_insert_comp)
  next
    case False
    with Cons.prems obtain out' where
      h: "heap_select cmp kept rs = (kept', out')" and o: "out = r # out'"
      by (auto split: prod.splits)
    from Cons.IH [OF h] o show ?thesis by simp
  qed
qed

lemma heap_select_sorted:
  fixes key :: "'a \<Rightarrow> int"
  assumes "heap_select (\<lambda>a b. key a < key b) kept rs = (kept', out)" "sorted (map key kept)"
  shows "sorted (map key kept')"
  using assms
proof (induction rs arbitrary: kept kept' out)
  case Nil
  then show ?case by simp
next
  case (Cons r rs)
  show ?case
  proof (cases "kept \<noteq> [] \<and> key r < key (last kept)")
    case True
    with Cons.prems(1) obtain out' where
      h: "heap_select (\<lambda>a b. key a < key b) (insert_comp (\<lambda>a b. key a < key b) r (butlast kept)) rs
            = (kept', out')"
      by (auto split: prod.splits)
    show ?thesis
      by (rule Cons.IH [OF h]) (simp add: sorted_insert_comp sorted_butlast_key Cons.prems(2))
  next
    case False
    with Cons.prems(1) obtain out' where
      h: "heap_select (\<lambda>a b. key a < key b) kept rs = (kept', out')"
      by (auto split: prod.splits)
    show ?thesis
      by (rule Cons.IH [OF h]) (rule Cons.prems(2))
  qed
qed

lemma heap_select_bound:
  fixes key :: "'a \<Rightarrow> int"
  assumes "heap_select (\<lambda>a b. key a < key b) kept rs = (kept', out)"
    "sorted (map key kept)" "\<forall>h \<in> set kept. key h \<le> b"
  shows "\<forall>h \<in> set kept'. key h \<le> b"
  using assms
proof (induction rs arbitrary: kept kept' out)
  case Nil
  then show ?case by simp
next
  case (Cons r rs)
  show ?case
  proof (cases "kept \<noteq> [] \<and> key r < key (last kept)")
    case True
    let ?k = "insert_comp (\<lambda>a b. key a < key b) r (butlast kept)"
    from True Cons.prems(1) obtain out' where
      h: "heap_select (\<lambda>a b. key a < key b) ?k rs = (kept', out')"
      by (auto split: prod.splits)
    have s: "sorted (map key ?k)"
      by (simp add: sorted_insert_comp sorted_butlast_key Cons.prems(2))
    from True have "last kept \<in> set kept"
      by simp
    with Cons.prems(3) have "key (last kept) \<le> b"
      by blast
    with True have "key r \<le> b"
      by simp
    then have "\<forall>h \<in> set ?k. key h \<le> b"
      using Cons.prems(3) by (auto simp: set_insert_comp dest: in_set_butlastD)
    from Cons.IH [OF h s this] show ?thesis .
  next
    case False
    with Cons.prems(1) obtain out' where
      h: "heap_select (\<lambda>a b. key a < key b) kept rs = (kept', out')"
      by (auto split: prod.splits)
    from Cons.IH [OF h Cons.prems(2,3)] show ?thesis .
  qed
qed

lemma heap_select_out:
  fixes key :: "'a \<Rightarrow> int"
  assumes "heap_select (\<lambda>a b. key a < key b) kept rs = (kept', out)" "sorted (map key kept)"
  shows "\<forall>h \<in> set kept'. \<forall>x \<in> set out. key h \<le> key x"
  using assms
proof (induction rs arbitrary: kept kept' out)
  case Nil
  then show ?case by simp
next
  case (Cons r rs)
  show ?case
  proof (cases "kept \<noteq> [] \<and> key r < key (last kept)")
    case True
    let ?k = "insert_comp (\<lambda>a b. key a < key b) r (butlast kept)"
    from True Cons.prems(1) obtain out' where
      h: "heap_select (\<lambda>a b. key a < key b) ?k rs = (kept', out')"
      and o: "out = last kept # out'"
      by (auto split: prod.splits)
    have s: "sorted (map key ?k)"
      by (simp add: sorted_insert_comp sorted_butlast_key Cons.prems(2))
    have "\<forall>h \<in> set ?k. key h \<le> key (last kept)"
      using True sorted_le_last [OF Cons.prems(2)]
      by (auto simp: set_insert_comp dest: in_set_butlastD)
    from heap_select_bound [OF h s this] Cons.IH [OF h s] o show ?thesis
      by simp
  next
    case False
    with Cons.prems(1) obtain out' where
      h: "heap_select (\<lambda>a b. key a < key b) kept rs = (kept', out')" and o: "out = r # out'"
      by (auto split: prod.splits)
    have "\<forall>h \<in> set kept. key h \<le> key r"
    proof
      fix h assume hk: "h \<in> set kept"
      then have "key h \<le> key (last kept)"
        by (rule sorted_le_last [OF Cons.prems(2)])
      moreover from hk False have "key (last kept) \<le> key r" by auto
      ultimately show "key h \<le> key r" by simp
    qed
    from heap_select_bound [OF h Cons.prems(2) this] Cons.IH [OF h Cons.prems(2)] o
    show ?thesis by simp
  qed
qed

lemma selection_partial_sort_contract: "partial_sort_contract selection_partial_sort"
  unfolding partial_sort_contract_def
proof (intro allI impI)
  fix p :: policy and key :: "'a \<Rightarrow> int" and middle :: nat and xs :: "'a list"
  assume m: "middle \<le> length xs"
  let ?cmp = "\<lambda>a b. key a < key b"
  obtain kept out where
    h: "heap_select ?cmp (sort_comp ?cmp (take middle xs)) (drop middle xs) = (kept, out)"
    by (cases "heap_select ?cmp (sort_comp ?cmp (take middle xs)) (drop middle xs)")
  then have r: "selection_partial_sort p ?cmp middle xs = kept @ out"
    by (simp add: selection_partial_sort_def)
  have s0: "sorted (map key (sort_comp ?cmp (take middle xs)))"
    by (rule sorted_sort_comp)
  have len: "length kept = middle"
    using heap_select_length [OF h] m by (simp add: length_sort_comp)
  have ms: "mset (kept @ out) = mset xs"
    using heap_select_mset [OF h]
    by (simp add: mset_sort_comp flip: mset_append)
  have sk: "sorted (map key kept)"
    by (rule heap_select_sorted [OF h s0])
  have ko: "\<forall>h \<in> set kept. \<forall>x \<in> set out. key h \<le> key x"
    by (rule heap_select_out [OF h s0])
  have ps: "partial_sorted key middle (kept @ out)"
    unfolding partial_sorted_def
  proof (intro allI impI)
    fix i j assume i: "i < middle" and j: "j < length (kept @ out)" and ij: "i < j"
    show "key ((kept @ out) ! i) \<le> key ((kept @ out) ! j)"
    proof (cases "j < middle")
      case True
      have "map key kept ! i \<le> map key kept ! j"
        using sk ij True len by (intro sorted_nth_mono) auto
      with i True len show ?thesis by (simp add: nth_append)
    next
      case False
      with j len have "(kept @ out) ! j \<in> set out"
        by (simp add: nth_append)
      moreover from i len have "(kept @ out) ! i \<in> set kept"
        by (simp add: nth_append)
      ultimately show ?thesis using ko by blast
    qed
  qed
  from r ms ps
  show "mset (selection_partial_sort p ?cmp middle xs) = mset xs \<and>
        partial_sorted key middle (selection_partial_sort p ?cmp middle xs)"
    by simp
qed

subsection \<open>partialSort and partialSortComp with a middle past the end\<close>

lemma size_t_of_small: "i < 2 ^ 31 \<Longrightarrow> size_t_of_int32 (word_of_nat i) = i"
proof -
  assume a: "i < 2 ^ 31"
  then have "sint (word_of_nat i :: int32) = int i"
    by (simp add: signed_of_nat signed_take_bit_int_eq_self)
  moreover from a have "int i < 2 ^ 64" by simp
  ultimately show ?thesis by (simp add: size_t_of_int32_def)
qed

lemma sint32_less: "sint (w :: int32) < 2 ^ 31"
  using sint_lt [of w] by simp

lemma index_array_in_range:
  assumes "j \<in> set (index_array n)"
  shows "size_t_of_int32 j < n"
proof -
  from assms obtain i where i: "i < n"
    and j: "j = (if int i < sint (word_of_nat n :: int32) then word_of_nat i else 0)"
    by (auto simp: index_array_def)
  show ?thesis
  proof (cases "int i < sint (word_of_nat n :: int32)")
    case True
    with sint32_less [of "word_of_nat n"] have "i < 2 ^ 31" by simp
    with True i j show ?thesis by (simp add: size_t_of_small)
  next
    case False
    with i j show ?thesis by (simp add: size_t_of_int32_def)
  qed
qed

lemma length_index_array: "length (index_array n) = n"
  by (simp add: index_array_def)

lemma index_array_small:
  assumes "n < 2 ^ 31"
  shows "map (\<lambda>j. xs ! size_t_of_int32 j) (index_array n) = map ((!) xs) [0..<n]"
proof -
  from assms have "sint (word_of_nat n :: int32) = int n"
    by (simp add: signed_of_nat signed_take_bit_int_eq_self)
  then have "index_array n = map word_of_nat [0..<n]"
    by (simp add: index_array_def)
  moreover have "size_t_of_int32 (word_of_nat i) = i" if "i < n" for i
    using that assms by (intro size_t_of_small) simp
  ultimately show ?thesis by simp
qed

lemma contract_whole_range:
  fixes key :: "'a \<Rightarrow> int"
  assumes "partial_sort_contract psort"
  shows "mset (psort p (\<lambda>a b. key a < key b) (length xs) xs) = mset xs \<and>
         sorted (map key (psort p (\<lambda>a b. key a < key b) (length xs) xs))"
proof -
  let ?ys = "psort p (\<lambda>a b. key a < key b) (length xs) xs"
  from assms have ms: "mset ?ys = mset xs" and ps: "partial_sorted key (length xs) ?ys"
    by (simp_all add: partial_sort_contract_def)
  from ms have len: "length ?ys = length xs"
    by (rule mset_eq_length)
  have "sorted (map key ?ys)"
    unfolding sorted_iff_nth_mono_less
  proof (intro allI impI)
    fix i j assume "i < j" "j < length (map key ?ys)"
    with ps len show "map key ?ys ! i \<le> map key ?ys ! j"
      by (simp add: partial_sorted_def)
  qed
  with ms show ?thesis by simp
qed

lemma Uint32Value_length:
  assumes "n < 2 ^ 32"
  shows "Uint32Value (Num (real n)) = word_of_nat n" "unat (word_of_nat n :: uint32) = n"
  using assms by (simp_all add: of_nat_inverse)

lemma PartialSortComp_whole_range:
  assumes c: "partial_sort_contract psort"
    and k: "call_status tsfn = napi_ok" "jsFn tsfn xs = TypedArray (Int32Array keys)"
      "length keys = length xs"
    and m: "unat (Uint32Value m) \<ge> length xs"
  shows "\<exists>sidx. PartialSortComp psort cfg tsfn xs m = Inr (map (\<lambda>j. xs ! size_t_of_int32 j) sidx) \<and>
           mset sidx = mset (index_array (length xs)) \<and>
           sorted (map (\<lambda>j. sint (keys ! size_t_of_int32 j)) sidx)"
proof -
  let ?n = "length xs"
  let ?key = "\<lambda>j. sint (keys ! size_t_of_int32 j)"
  let ?cmp = "\<lambda>lhs rhs. sint (keys ! size_t_of_int32 lhs) < sint (keys ! size_t_of_int32 rhs)"
  have "unat (Uint32Value m) < 2 ^ 32"
    using unsigned_less [of "Uint32Value m"] by simp
  with m have n: "?n < 2 ^ 32" by simp
  let ?mid = "if unat (Uint32Value m) > ?n then word_of_nat ?n else Uint32Value m"
  have mid: "unat (?mid :: uint32) = ?n"
    using m n by (auto simp: of_nat_inverse)
  from k have g: "GetKeyArrayBatchUsingTSFN tsfn xs ?n = Inr keys"
    by (simp add: keys_result)
  have "\<exists>sidx. hpx_partial_sort_comp psort cfg (index_array ?n) ?n ?n ?cmp = Inr sidx \<and>
           mset sidx = mset (index_array ?n) \<and> sorted (map ?key sidx)"
    unfolding hpx_partial_sort_comp_def Let_def
    using contract_whole_range [OF c, of _ ?key "index_array ?n"]
    by (simp add: vector_from_def length_index_array hpx_lib_partial_sort_comp_def)
      (rule run_with_policy_cases, simp add: length_index_array)
  then obtain sidx where
    h: "hpx_partial_sort_comp psort cfg (index_array ?n) ?n ?n ?cmp = Inr sidx"
    and ms: "mset sidx = mset (index_array ?n)" and so: "sorted (map ?key sidx)"
    by blast
  from ms have "set sidx = set (index_array ?n)"
    by (rule mset_eq_setD)
  then have r: "list_all (\<lambda>j. size_t_of_int32 j < ?n) sidx"
    by (simp add: list_all_iff index_array_in_range)
  have "PartialSortComp psort cfg tsfn xs m = Inr (map (\<lambda>j. xs ! size_t_of_int32 j) sidx)"
    unfolding PartialSortComp_def Let_def
    by (simp only: mid g vector_from_all h reorder_def r sum.case if_True)
  with ms so show ?thesis by blast
qed

lemma PartialSortComp_example:
  "PartialSortComp selection_partial_sort default_config key_tsfn [3, 1, 2] (Num 3) = Inr [1, 2, 3]"
proof -
  have i: "index_array (Suc (Suc (Suc 0))) = [0, 1, 2]"
    by (simp add: index_array_def upt_rec)
  have u: "Uint32Value (Num 3) = 3"
    by simp
  have g: "GetKeyArrayBatchUsingTSFN key_tsfn [3, 1, 2] (Suc (Suc (Suc 0))) = Inr [3, 1, 2]"
    using keys_result [of key_tsfn "[3, 1, 2]"] by (simp add: key_tsfn_def)
  have s: "size_t_of_int32 0 = 0" "size_t_of_int32 1 = 1" "size_t_of_int32 2 = 2"
    by (simp_all add: size_t_of_int32_def)
  show ?thesis
    unfolding PartialSortComp_def Let_def u
    by (simp add: g i s vector_from_def hpx_partial_sort_comp_def run_with_policy_def
        default_config_def hpx_lib_partial_sort_comp_def selection_partial_sort_def sort_comp_def
        reorder_def)
qed

text \<open>
  Claim C9 as stated fails for a middle of \<open>2^32 + 1\<close> on an array of three elements:
  the middle is reduced modulo \<open>2^32\<close> to 1, which is within the array, and
  \<open>partialSort\<close> resolves instead of rejecting.
\<close>

theorem partial_sort_wraps_counterexample:
  "PartialSort selection_partial_sort default_config [3, 1, 2] (Num 4294967297) = Inr [1, 3, 2]"
proof -
  have "Uint32Value (Num 4294967297) = 1"
    by simp
  then show ?thesis
    by (simp add: PartialSort_def hpx_partial_sort_def vector_from_def run_with_policy_def
        default_config_def hpx_lib_partial_sort_def selection_partial_sort_def sort_comp_def)
qed

text \<open>
  Claim C9 (amended). For an input of length \<open>n\<close> and a middle whose conversion to
  an unsigned 32-bit integer is larger than \<open>n\<close>, with any library that meets the
  contract of the partial sort: \<open>partialSort\<close> is rejected with the error
  \<open>'middle' index out of bounds\<close>; \<open>hpx_partial_sort_comp\<close> and \<open>partialSortComp\<close>
  behave as for middle \<open>n\<close>; and when the key extractor answers with a well-shaped
  key array, \<open>partialSortComp\<close> succeeds with the input rearranged by a permutation
  of the index array along which the keys ascend over the whole array (for
  \<open>n < 2^31\<close>, a rearrangement of the input).
\<close>

theorem partial_sort_middle_out_of_range:
  assumes "partial_sort_contract psort" and "length xs < unat (Uint32Value m)"
  shows "PartialSort psort cfg xs m = Inl (RuntimeError middle_msg) \<and>
         (sz < middle \<longrightarrow>
            hpx_partial_sort_comp psort cfg src sz middle cmp =
              hpx_partial_sort_comp psort cfg src sz sz cmp) \<and>
         PartialSortComp psort cfg tsfn xs m =
           PartialSortComp psort cfg tsfn xs (Num (real (length xs))) \<and>
         (call_status tsfn = napi_ok \<and> jsFn tsfn xs = TypedArray (Int32Array keys) \<and>
          length keys = length xs \<longrightarrow>
            (\<exists>sidx. PartialSortComp psort cfg tsfn xs m = Inr (map (\<lambda>j. xs ! size_t_of_int32 j) sidx) \<and>
               mset sidx = mset (index_array (length xs)) \<and>
               sorted (map (\<lambda>j. sint (keys ! size_t_of_int32 j)) sidx) \<and>
               (length xs < 2 ^ 31 \<longrightarrow> mset (map (\<lambda>j. xs ! size_t_of_int32 j) sidx) = mset xs)))"
proof (intro conjI impI)
  show "PartialSort psort cfg xs m = Inl (RuntimeError middle_msg)"
    using assms(2) by (simp add: PartialSort_def hpx_partial_sort_def)
next
  assume "sz < middle"
  then show "hpx_partial_sort_comp psort cfg src sz middle cmp =
      hpx_partial_sort_comp psort cfg src sz sz cmp"
    by (simp add: hpx_partial_sort_comp_def)
next
  have "unat (Uint32Value m) < 2 ^ 32"
    using unsigned_less [of "Uint32Value m"] by simp
  with assms(2) have n: "length xs < 2 ^ 32" by simp
  show "PartialSortComp psort cfg tsfn xs m =
      PartialSortComp psort cfg tsfn xs (Num (real (length xs)))"
    using assms(2) by (simp add: PartialSortComp_def Let_def Uint32Value_length [OF n])
next
  assume k: "call_status tsfn = napi_ok \<and> jsFn tsfn xs = TypedArray (Int32Array keys) \<and>
      length keys = length xs"
  from assms(2) have "length xs \<le> unat (Uint32Value m)" by simp
  from PartialSortComp_whole_range [OF assms(1) _ _ _ this, of tsfn keys cfg] k
  obtain sidx where
    r: "PartialSortComp psort cfg tsfn xs m = Inr (map (\<lambda>j. xs ! size_t_of_int32 j) sidx)"
    and ms: "mset sidx = mset (index_array (length xs))"
    and so: "sorted (map (\<lambda>j. sint (keys ! size_t_of_int32 j)) sidx)"
    by blast
  have "mset (map (\<lambda>j. xs ! size_t_of_int32 j) sidx) = mset xs" if "length xs < 2 ^ 31"
  proof -
    have "mset (map (\<lambda>j. xs ! size_t_of_int32 j) sidx) =
        mset (map (\<lambda>j. xs ! size_t_of_int32 j) (index_array (length xs)))"
      by (simp add: ms)
    also have "\<dots> = mset xs"
      by (simp only: index_array_small [OF that] map_nth)
    finally show ?thesis .
  qed
  with r ms so
  show "\<exists>sidx. PartialSortComp psort cfg tsfn xs m = Inr (map (\<lambda>j. xs ! size_t_of_int32 j) sidx) \<and>
      mset sidx = mset (index_array (length xs)) \<and>
      sorted (map (\<lambda>j. sint (keys ! size_t_of_int32 j)) sidx) \<and>
      (length xs < 2 ^ 31 \<longrightarrow> mset (map (\<lambda>j. xs ! size_t_of_int32 j) sidx) = mset xs)"
    by blast
qed

theorem partial_sort_middle_out_of_range_witness:
  "PartialSort selection_partial_sort default_config [3, 1, 2] (Num 5) =
     Inl (RuntimeError middle_msg) \<and>
   PartialSortComp selection_partial_sort default_config key_tsfn [3, 1, 2] (Num 5) = Inr [1, 2, 3]"
proof -
  have h: "length [3, 1, 2 :: int32] < unat (Uint32Value (Num 5))"
    by simp
  note t = partial_sort_middle_out_of_range [OF selection_partial_sort_contract h,
      where cfg = default_config and tsfn = key_tsfn and keys = "[3, 1, 2]"]
  from t have a: "PartialSort selection_partial_sort default_config [3, 1, 2] (Num 5) =
      Inl (RuntimeError middle_msg)"
    by blast
  from t have "PartialSortComp selection_partial_sort default_config key_tsfn [3, 1, 2] (Num 5) =
      PartialSortComp selection_partial_sort default_config key_tsfn [3, 1, 2]
        (Num (real (length [3, 1, 2 :: int32])))"
    by blast
  then have "PartialSortComp selection_partial_sort default_config key_tsfn [3, 1, 2] (Num 5) =
      PartialSortComp selection_partial_sort default_config key_tsfn [3, 1, 2] (Num 3)"
    by simp
  with a PartialSortComp_example show ?thesis
    by simp
qed

subsection \<open>init called twice\<close>

lemma starting_state_eq:
  "starting_state =
     (\<lparr>hpx_thread_joinable = True, init_promise = Some 0, finalize_promise = None,
        running = False, finalize_signal = False\<rparr>,
      \<lparr>heap = [\<lparr>state = Pending, retrieved = True\<rparr>],
        spawn_log = [([''hpxaddon''], [''hpx.os_threads=2''])], joins = 0\<rparr>)"
  by (simp add: starting_state_def InitHPX_def HPXManager_new_def runtime_new_def
      make_promise_def drop_promise_def get_future_def Let_def)

lemma running_state_eq:
  "running_state =
     (\<lparr>hpx_thread_joinable = True, init_promise = Some 0, finalize_promise = None,
        running = True, finalize_signal = False\<rparr>,
      \<lparr>heap = [\<lparr>state = Ready 0, retrieved = True\<rparr>],
        spawn_log = [([''hpxaddon''], [''hpx.os_threads=2''])], joins = 0\<rparr>)"
  by (simp add: running_state_def starting_state_def hpx_main_handler_enter_def InitHPX_def
      HPXManager_new_def runtime_new_def make_promise_def drop_promise_def get_future_def
      SetRunning_def ResolveInitPromise_def set_value_def Let_def)

text \<open>
  The guard of \<open>InitHPX\<close> on its Running path: when the flag \<open>running_\<close> is
  set, the call returns at once a future that already holds -1, the manager is
  unchanged, no engine thread is started, and every shared state that existed
  before, the first call's among them, is as it was.
\<close>

lemma InitHPX_while_running:
  assumes "running m"
  shows "\<exists>fut rt'. InitHPX argc argv config (m, rt) = (Inr fut, m, rt') \<and>
           future_get fut rt' = Inr (- 1) \<and> spawn_log rt' = spawn_log rt \<and>
           take (length (heap rt)) (heap rt') = heap rt"
  using assms by (simp add: InitHPX_def ready_future_def future_get_def)

lemma InitHPX_in_running_state:
  "running (fst running_state) \<and>
   (\<exists>fut rt'. InitHPX 1 [''hpxaddon''] [''hpx.os_threads=4''] running_state =
        (Inr fut, fst running_state, rt') \<and>
      future_get fut rt' = Inr (- 1) \<and> spawn_log rt' = spawn_log (snd running_state) \<and>
      take (length (heap (snd running_state))) (heap rt') = heap (snd running_state))"
proof -
  have r: "running (fst running_state)"
    by (simp add: running_state_eq)
  from InitHPX_while_running [OF r, of 1 "[''hpxaddon'']" "[''hpx.os_threads=4'']" "snd running_state"] r
  show ?thesis by simp
qed

text \<open>
  Claim C3, evaluated in the state Starting. A first \<open>InitHPX\<close> on a new manager
  returns the future at address 0 and leaves the engine thread started, the flag
  \<open>running_\<close> not yet set and that future pending. A second \<open>InitHPX\<close> in this
  state does not fail with the already-running result: it passes the guard,
  destroys the first promise (the first call's future is broken), starts a second
  engine thread and terminates the process on the assignment to the joinable thread.
\<close>

theorem InitHPX_while_starting:
  "InitHPX 1 [''hpxaddon''] [''hpx.os_threads=2''] (HPXManager_new, runtime_new) =
     (Inr 0, starting_state) \<and>
   \<not> running (fst starting_state) \<and>
   future_get 0 (snd starting_state) = Inl Blocked \<and>
   fst (InitHPX 1 [''hpxaddon''] [''hpx.os_threads=2''] starting_state) = Inl Terminate \<and>
   future_get 0 (snd (snd (InitHPX 1 [''hpxaddon''] [''hpx.os_threads=2''] starting_state))) =
     Inl (FutureError broken_promise) \<and>
   length (spawn_log (snd (snd (InitHPX 1 [''hpxaddon''] [''hpx.os_threads=2''] starting_state))))
     = 2"
proof -
  have "InitHPX 1 [''hpxaddon''] [''hpx.os_threads=2''] (HPXManager_new, runtime_new) =
     (Inr 0, starting_state)"
    by (simp add: starting_state_eq)
      (simp add: InitHPX_def HPXManager_new_def runtime_new_def
        make_promise_def drop_promise_def get_future_def Let_def)
  then show ?thesis
    by (simp add: starting_state_eq)
      (simp add: InitHPX_def make_promise_def drop_promise_def future_get_def Let_def)
qed

subsection \<open>finalize called twice\<close>

lemma FinalizeHPX_fresh:
  assumes "fresh_running m"
  shows "FinalizeHPX (m, rt) =
    (Inr (Suc (length (heap rt))),
     m\<lparr>finalize_promise := Some (length (heap rt)), finalize_signal := True,
        hpx_thread_joinable := False\<rparr>,
     rt\<lparr>heap := heap rt @ [\<lparr>state = Ready 0, retrieved = True\<rparr>,
                            \<lparr>state = Ready 0, retrieved = True\<rparr>],
        joins := Suc (joins rt)\<rparr>)"
  using assms
  by (simp add: FinalizeHPX_def fresh_running_def make_promise_def get_future_def
      WaitForFinalizeHPX_def set_value_def future_get_def ready_future_def Let_def)

lemma finalized_once_eq:
  "FinalizeHPX running_state =
     (Inr 2,
      \<lparr>hpx_thread_joinable = False, init_promise = Some 0, finalize_promise = Some 1,
        running = True, finalize_signal = True\<rparr>,
      \<lparr>heap = [\<lparr>state = Ready 0, retrieved = True\<rparr>, \<lparr>state = Ready 0, retrieved = True\<rparr>,
               \<lparr>state = Ready 0, retrieved = True\<rparr>],
        spawn_log = [([''hpxaddon''], [''hpx.os_threads=2''])], joins = 1\<rparr>)"
  by (simp add: running_state_eq FinalizeHPX_fresh fresh_running_def)

text \<open>
  Claim C1, evaluated. A first \<open>FinalizeHPX\<close> on the running manager returns a
  future holding 0 (address 2; the in-flight promise is at address 1) after one join.
  A second call made before the engine has cleared the flag takes the branch
  "finalization already in progress" and throws \<open>future_already_retrieved\<close>; made
  after, it returns a new future holding -1. In neither case does it return the
  future of the first call or its result. The engine thread is joined once.
\<close>

theorem FinalizeHPX_twice:
  "fst (FinalizeHPX running_state) = Inr 2 \<and>
   future_get 2 (snd finalized_once) = Inr 0 \<and>
   joins (snd finalized_once) = 1 \<and>
   finalize_promise (fst finalized_once) = Some 1 \<and>
   FinalizeHPX finalized_once = (Inl (FutureError future_already_retrieved), finalized_once) \<and>
   fst (FinalizeHPX (hpx_main_handler_leave finalized_once)) = Inr 3 \<and>
   future_get 3 (snd (snd (FinalizeHPX (hpx_main_handler_leave finalized_once)))) = Inr (- 1) \<and>
   joins (snd (snd (FinalizeHPX (hpx_main_handler_leave finalized_once)))) = 1"
  by (simp add: finalized_once_def finalized_once_eq)
    (simp add: FinalizeHPX_def hpx_main_handler_leave_def SetRunning_def get_future_def
      future_get_def ready_future_def)

subsection \<open>finalize and the release of the callbacks\<close>

lemma joins_drop_promise: "joins (drop_promise ptr rt) = joins rt"
  by (simp add: drop_promise_def split: option.splits)

lemma drop_promise_settled:
  "a < length (heap rt) \<Longrightarrow> state (heap rt ! a) \<noteq> Pending \<Longrightarrow> drop_promise (Some a) rt = rt"
  by (simp add: drop_promise_def)

lemma execute_fresh:
  assumes "finalize_job p = Queued" "g_hpx_manager_instance p = Some m" "fresh_running m"
  shows "FinalizeHPX_execute p =
    p\<lparr>g_hpx_manager_instance := None,
      rts := drop_promise (init_promise m)
        ((rts p)\<lparr>heap := heap (rts p) @ [\<lparr>state = Ready 0, retrieved = True\<rparr>,
                            \<lparr>state = Ready 0, retrieved = True\<rparr>],
        joins := Suc (joins (rts p))\<rparr>),
      tsfns := ReleaseAllTSFNs (tsfns p),
      finalize_job := Executed 0 []\<rparr>"
proof -
  let ?rt' = "(rts p)\<lparr>heap := heap (rts p) @ [\<lparr>state = Ready 0, retrieved = True\<rparr>,
                            \<lparr>state = Ready 0, retrieved = True\<rparr>],
        joins := Suc (joins (rts p))\<rparr>"
  let ?m' = "m\<lparr>finalize_promise := Some (length (heap (rts p))), finalize_signal := True,
        hpx_thread_joinable := False\<rparr>"
  have f: "FinalizeHPX (m, rts p) = (Inr (Suc (length (heap (rts p)))), ?m', ?rt')"
    using assms(3) by (rule FinalizeHPX_fresh)
  have g: "future_get (Suc (length (heap (rts p)))) ?rt' = Inr 0"
    by (simp add: future_get_def nth_append)
  have "drop_promise (Some (length (heap (rts p)))) ?rt' = ?rt'"
    by (rule drop_promise_settled) (simp_all add: nth_append)
  then have d: "destroy_HPXManager (?m', ?rt') = Inr (drop_promise (init_promise m) ?rt')"
    by (simp add: destroy_HPXManager_def)
  show ?thesis
    using assms(2)
    by (simp add: FinalizeHPX_execute_def getHPXManager_def f g d resetHPXManager_def Let_def)
qed

lemma inv_step:
  assumes "finalize_inv hs j p"
  shows "finalize_inv hs j (step t p)"
proof (cases t)
  case Worker
  show ?thesis
  proof (cases "finalize_job p")
    case Queued
    with assms obtain m where m: "g_hpx_manager_instance p = Some m" "fresh_running m"
      by (auto simp: finalize_inv_def split: option.splits)
    from assms Queued have "release_thread (tsfns p) = NotStarted" "joins (rts p) = j"
      "\<not> releasing (tsfns p)" "tsfn_list (tsfns p) = hs" "released (tsfns p) = []"
      "\<not> release_completed (tsfns p)"
      by (auto simp: finalize_inv_def)
    then show ?thesis
      using Worker Queued
      by (simp add: execute_fresh [OF Queued m] finalize_inv_def ReleaseAllTSFNs_def
          joins_drop_promise)
  qed (use assms Worker in \<open>simp_all\<close>)
next
  case ReleaseThread
  with assms show ?thesis
    by (auto simp: finalize_inv_def release_thread_step_def
        split: job.splits release_thread.splits option.splits)
next
  case HostThread
  with assms show ?thesis
    by (auto simp: finalize_inv_def complete_def split: job.splits release_thread.splits)
qed

lemma inv_run: "finalize_inv hs j p \<Longrightarrow> finalize_inv hs j (run sched p)"
  by (induction sched arbitrary: p) (simp_all add: inv_step)

lemma inv_init:
  "finalize_requested p \<Longrightarrow> finalize_inv (tsfn_list (tsfns p)) (joins (rts p)) p"
  by (simp add: finalize_requested_def finalize_inv_def)

lemma set_release_each: "set (release_each hs acc) = set acc \<union> {h. Some h \<in> set hs}"
  by (induction hs acc rule: release_each.induct) auto

lemma running_process_requested: "finalize_requested (running_process hs)"
  by (simp add: finalize_requested_def running_process_def running_state_eq fresh_running_def
      TSFNManager_new_def)

lemma Worker_running_process:
  "step Worker (running_process hs) =
     (running_process hs)\<lparr>g_hpx_manager_instance := None,
        rts := \<lparr>heap = [\<lparr>state = Ready 0, retrieved = True\<rparr>,
                  \<lparr>state = Ready 0, retrieved = True\<rparr>, \<lparr>state = Ready 0, retrieved = True\<rparr>],
                spawn_log = [([''hpxaddon''], [''hpx.os_threads=2''])], joins = 1\<rparr>,
        tsfns := \<lparr>tsfn_list = hs, releasing = True, release_thread = Spawned,
                  release_completed = False, released = []\<rparr>,
        finalize_job := Executed 0 []\<rparr>"
proof -
  have q: "finalize_job (running_process hs) = Queued"
    and i: "g_hpx_manager_instance (running_process hs) = Some (fst running_state)"
    by (simp_all add: running_process_def)
  have r: "fresh_running (fst running_state)"
    by (simp add: running_state_eq fresh_running_def)
  show ?thesis
    by (simp add: q execute_fresh [OF q i r])
      (simp add: running_process_def running_state_eq drop_promise_def ReleaseAllTSFNs_def
        TSFNManager_new_def)
qed




end
